theory Spec2Isabelle
  imports Complex_Main "HOL-Library.Log_Nat"
begin

section \<open>The warehouse grid (warehouseRobot.py)\<close>

text \<open>
  Exceptions of the Python program are values: \<open>ValueError\<close> is what
  \<open>RobotAction(v)\<close> raises on a value outside the enumeration, what
  \<open>random.randint\<close> raises on an empty range and what \<open>np.argmax\<close> and \<open>np.max\<close>
  raise on an empty array; \<open>IndexError\<close> is what indexing an array out of its bounds raises;
  \<open>ZeroDivisionError\<close> is what \<open>/\<close> raises on a zero divisor; \<open>GymError\<close> is
  \<open>gymnasium.error.Error\<close>.
\<close>

datatype py_error = ValueError | IndexError | ZeroDivisionError | GymError

text \<open>\<open>class RobotAction(Enum)\<close>: \<open>LEFT=0, DOWN=1, RIGHT=2, UP=3\<close>.\<close>

datatype RobotAction = LEFT | DOWN | RIGHT | UP

fun action_value :: "RobotAction \<Rightarrow> int" where
  "action_value LEFT = 0"
| "action_value DOWN = 1"
| "action_value RIGHT = 2"
| "action_value UP = 3"

text \<open>The enumeration's constructor \<open>RobotAction(v)\<close>, a lookup by value.\<close>

definition RobotAction_of :: "int \<Rightarrow> py_error + RobotAction" where
  "RobotAction_of v =
     (if v = 0 then Inr LEFT
      else if v = 1 then Inr DOWN
      else if v = 2 then Inr RIGHT
      else if v = 3 then Inr UP
      else Inl ValueError)"

text \<open>
  The fields of \<open>class WarehouseRobot\<close> that the simulation reads and writes. The two
  positions are two-element lists \<open>[row, col]\<close>; \<open>reset\<close> builds each one from its own
  list display and nothing else stores them, so the in-place updates of \<open>robot_pos\<close> in
  \<open>perform_action\<close> act on an object no other field shares, and a pair of Python integers
  per position is the same data. \<open>last_action\<close> starts as the empty string (here \<open>None\<close>)
  and then holds the last action. The rendering fields (window, sprites, clock, \<open>fps\<close>)
  take no part in the transition function and are left out.
\<close>

record WarehouseRobot =
  grid_rows :: int
  grid_cols :: int
  robot_pos :: "int \<times> int"
  target_pos :: "int \<times> int"
  last_action :: "RobotAction option"

text \<open>
  \<open>perform_action\<close>: the \<open>if\<close>/\<open>elif\<close> chain in the order of the source (LEFT, RIGHT, UP,
  DOWN), then the comparison of the two position lists. The result is the returned
  boolean together with the updated object.
\<close>

definition perform_action :: "WarehouseRobot \<Rightarrow> RobotAction \<Rightarrow> bool \<times> WarehouseRobot" where
  "perform_action s robot_action =
     (let s1 = s\<lparr>last_action := Some robot_action\<rparr>;
          r = fst (robot_pos s1);
          c = snd (robot_pos s1);
          s2 = (if robot_action = LEFT then
                  (if c > 0 then s1\<lparr>robot_pos := (r, c - 1)\<rparr> else s1)
                else if robot_action = RIGHT then
                  (if c < grid_cols s1 - 1 then s1\<lparr>robot_pos := (r, c + 1)\<rparr> else s1)
                else if robot_action = UP then
                  (if r > 0 then s1\<lparr>robot_pos := (r - 1, c)\<rparr> else s1)
                else if robot_action = DOWN then
                  (if r < grid_rows s1 - 1 then s1\<lparr>robot_pos := (r + 1, c)\<rparr> else s1)
                else s1)
      in (robot_pos s2 = target_pos s2, s2))"

text \<open>
  The module-wide generator of Python's \<open>random\<close>. Its algorithm is the standard
  library's, not this repository's, so it is a parameter: \<open>seed_state k\<close> is the generator
  state that \<open>random.seed(k)\<close> installs for an integer \<open>k\<close>, and \<open>randbelow g n\<close> is the
  library's \<open>_randbelow(n)\<close> run from state \<open>g\<close>, giving a number and the next state.
  \<open>random.seed(None)\<close> seeds from the operating system's entropy: the state it installs
  is an input of its own.
\<close>

record 'g rng =
  seed_state :: "int \<Rightarrow> 'g"
  randbelow :: "'g \<Rightarrow> int \<Rightarrow> int \<times> 'g"

text \<open>\<open>random.seed(seed)\<close> replaces the generator state \<open>g\<close>, whatever it was.\<close>

definition random_seed :: "'g rng \<Rightarrow> int option \<Rightarrow> 'g \<Rightarrow> 'g \<Rightarrow> 'g" where
  "random_seed R seed entropy g =
     (case seed of None \<Rightarrow> entropy | Some k \<Rightarrow> seed_state R k)"

text \<open>
  \<open>random.randint(a, b)\<close> is \<open>randrange(a, b + 1)\<close>: it raises \<open>ValueError\<close> on an empty
  range and otherwise returns \<open>a + _randbelow(b - a + 1)\<close>. The library's \<open>_randbelow(n)\<close>
  returns a number in \<open>[0, n)\<close>; the reduction modulo \<open>n\<close> gives the parameter that range
  whatever function is supplied for it.
\<close>

definition randint :: "'g rng \<Rightarrow> 'g \<Rightarrow> int \<Rightarrow> int \<Rightarrow> py_error + (int \<times> 'g)" where
  "randint R g a b =
     (if b < a then Inl ValueError
      else (let width = b - a + 1;
                d = randbelow R g width
            in Inr (a + fst d mod width, snd d)))"

text \<open>
  \<open>reset(seed)\<close>: the robot returns to \<open>[0, 0]\<close>, the generator is seeded, and the target
  row and column are drawn in that order. The state is the object and the module-wide
  generator; an exception of \<open>randint\<close> leaves the method.
\<close>

definition reset ::
  "'g rng \<Rightarrow> int option \<Rightarrow> 'g \<Rightarrow> WarehouseRobot \<times> 'g \<Rightarrow> py_error + (WarehouseRobot \<times> 'g)" where
  "reset R seed entropy sg =
     (let s1 = (fst sg)\<lparr>robot_pos := (0, 0)\<rparr>;
          g1 = random_seed R seed entropy (snd sg)
      in case randint R g1 1 (grid_rows s1 - 1) of
           Inl e \<Rightarrow> Inl e
         | Inr (row, g2) \<Rightarrow>
             (case randint R g2 1 (grid_cols s1 - 1) of
                Inl e \<Rightarrow> Inl e
              | Inr (col, g3) \<Rightarrow> Inr (s1\<lparr>target_pos := (row, col)\<rparr>, g3)))"

text \<open>
  The constructor \<open>WarehouseRobot(grid_rows, grid_cols, fps)\<close>: it stores the grid size,
  calls \<open>reset()\<close> without a seed and sets \<open>last_action\<close> to the empty string. The positions
  do not exist before \<open>reset\<close> assigns them; the pairs given here are overwritten.
\<close>

definition WarehouseRobot_init ::
  "'g rng \<Rightarrow> int \<Rightarrow> int \<Rightarrow> 'g \<Rightarrow> 'g \<Rightarrow> py_error + (WarehouseRobot \<times> 'g)" where
  "WarehouseRobot_init R rows cols entropy g =
     (case reset R None entropy
             (\<lparr>grid_rows = rows, grid_cols = cols, robot_pos = (0, 0), target_pos = (0, 0),
               last_action = None\<rparr>, g) of
        Inl e \<Rightarrow> Inl e
      | Inr (w, g') \<Rightarrow> Inr (w\<lparr>last_action := None\<rparr>, g'))"

section \<open>The environment adapter (warehouseRobotEnv.py)\<close>

text \<open>
  \<open>class WarehouseRobotEnv\<close>: its own copy of the grid size, the render mode and the
  wrapped \<open>WarehouseRobot\<close>. Rendering prints and draws only; it is not modelled.
\<close>

record WarehouseRobotEnv =
  env_grid_rows :: int
  env_grid_cols :: int
  render_mode :: "string option"
  warehouse_robot :: WarehouseRobot

text \<open>
  The observation \<open>np.concatenate((robot_pos, target_pos))\<close>: a fresh array of the four
  integers robot row, robot column, target row, target column.
\<close>

type_synonym observation = "int \<times> int \<times> int \<times> int"

definition observe :: "WarehouseRobot \<Rightarrow> observation" where
  "observe w = (fst (robot_pos w), snd (robot_pos w), fst (target_pos w), snd (target_pos w))"

text \<open>
  The result of \<open>step\<close>: observation, reward, terminated, truncated, and the environment
  after the step (the \<open>info\<close> dictionary is always empty). The reward is the Python
  integer \<open>0\<close> or \<open>1\<close>.
\<close>

record step_result =
  obs :: observation
  reward :: int
  terminated :: bool
  truncated :: bool
  env_after :: WarehouseRobotEnv

definition step :: "WarehouseRobotEnv \<Rightarrow> int \<Rightarrow> py_error + step_result" where
  "step E action =
     (case RobotAction_of action of
        Inl e \<Rightarrow> Inl e
      | Inr a \<Rightarrow>
          (let pa = perform_action (warehouse_robot E) a;
               target_reached = fst pa;
               w = snd pa;
               rew = (if target_reached then 1 else 0);
               term = (if target_reached then True else False)
           in Inr \<lparr>obs = observe w, reward = rew, terminated = term,
                   truncated = False, env_after = E\<lparr>warehouse_robot := w\<rparr>\<rparr>))"

text \<open>
  \<open>WarehouseRobotEnv.reset\<close>: \<open>super().reset(seed=seed)\<close> seeds gymnasium's own generator,
  which this environment never draws from, and raises \<open>gymnasium.error.Error\<close> for a
  negative seed; then the wrapped robot is reset and the observation returned.
\<close>

definition env_reset ::
  "'g rng \<Rightarrow> int option \<Rightarrow> 'g \<Rightarrow> WarehouseRobotEnv \<times> 'g \<Rightarrow>
   py_error + (observation \<times> WarehouseRobotEnv \<times> 'g)" where
  "env_reset R seed entropy Eg =
     (if (case seed of None \<Rightarrow> False | Some k \<Rightarrow> k < 0) then Inl GymError
      else case reset R seed entropy (warehouse_robot (fst Eg), snd Eg) of
             Inl e \<Rightarrow> Inl e
           | Inr (w, g') \<Rightarrow> Inr (observe w, (fst Eg)\<lparr>warehouse_robot := w\<rparr>, g'))"

text \<open>
  The constructor \<open>WarehouseRobotEnv(grid_rows=4, grid_cols=5, render_mode=None)\<close>, and
  \<open>gym.make('warehouse-robot-v0', render_mode=...)\<close>, which calls the registered entry
  point with the default grid size. After the robot the constructor builds the action
  space and the observation space, a \<open>spaces.Box\<close> of \<open>int32\<close> with the upper bounds
  \<open>grid_rows - 1\<close> and \<open>grid_cols - 1\<close>, which raises \<open>ValueError\<close> for a bound beyond the
  \<open>int32\<close> range. The wrappers that \<open>gym.make\<close> puts around the environment pass
  \<open>reset\<close> and \<open>step\<close> through and are not modelled.
\<close>

definition WarehouseRobotEnv_init ::
  "'g rng \<Rightarrow> int \<Rightarrow> int \<Rightarrow> string option \<Rightarrow> 'g \<Rightarrow> 'g \<Rightarrow> py_error + (WarehouseRobotEnv \<times> 'g)" where
  "WarehouseRobotEnv_init R rows cols mode entropy g =
     (case WarehouseRobot_init R rows cols entropy g of
        Inl e \<Rightarrow> Inl e
      | Inr (w, g') \<Rightarrow>
          (if 2147483647 < rows - 1 \<or> 2147483647 < cols - 1 then Inl ValueError
           else Inr (\<lparr>env_grid_rows = rows, env_grid_cols = cols, render_mode = mode,
                      warehouse_robot = w\<rparr>, g')))"

definition gym_make ::
  "'g rng \<Rightarrow> string option \<Rightarrow> 'g \<Rightarrow> 'g \<Rightarrow> py_error + (WarehouseRobotEnv \<times> 'g)" where
  "gym_make R mode entropy g = WarehouseRobotEnv_init R 4 5 mode entropy g"

section \<open>Binary64 arithmetic\<close>

text \<open>
  Python's \<open>float\<close> and NumPy's \<open>float64\<close> are IEEE 754 binary64 numbers, and every
  \<open>+\<close>, \<open>-\<close>, \<open>*\<close>, \<open>/\<close> of the trainer returns the exact result rounded to the nearest
  binary64 number, ties to the even significand. A finite binary64 number is a rational;
  the model computes on rationals and rounds after every operation. For \<open>x \<noteq> 0\<close> the
  spacing of the binary64 numbers around \<open>x\<close> is \<open>2\<close> to the power
  \<open>max (\<lfloor>log\<^sub>2 \<bar>x\<bar>\<rfloor> - 52) (- 1074)\<close> (53 significant bits, subnormal numbers below
  \<open>2\<close> to the \<open>- 1022\<close>). Overflow to infinity (magnitudes from \<open>2\<close> to the \<open>1024\<close> on) and
  NaN are outside the model: the trainer's numbers are an exploration rate in \<open>[0, 1]\<close>,
  rewards \<open>0\<close> and \<open>1\<close>, table entries built from them, and step counts.
\<close>

type_synonym float64 = rat

text \<open>\<open>ilog2 x\<close> is \<open>\<lfloor>log\<^sub>2 x\<rfloor>\<close> for a positive rational, from the bit lengths of its fraction.\<close>

definition ilog2 :: "rat \<Rightarrow> int" where
  "ilog2 x =
     (let pq = quotient_of x;
          e0 = bitlen (fst pq) - bitlen (snd pq)
      in if 2 powi e0 \<le> x then e0 else e0 - 1)"

definition round_even :: "rat \<Rightarrow> int" where
  "round_even y =
     (let f = \<lfloor>y\<rfloor>;
          d = y - of_int f
      in if d < 1 / 2 then f
         else if 1 / 2 < d then f + 1
         else if even f then f else f + 1)"

definition fl :: "rat \<Rightarrow> float64" where
  "fl x =
     (if x = 0 then 0
      else (let e = max (ilog2 \<bar>x\<bar> - 52) (- 1074)
            in of_int (round_even (x / 2 powi e)) * 2 powi e))"

definition fadd :: "float64 \<Rightarrow> float64 \<Rightarrow> float64" where
  "fadd x y = fl (x + y)"

definition fsub :: "float64 \<Rightarrow> float64 \<Rightarrow> float64" where
  "fsub x y = fl (x - y)"

definition fmul :: "float64 \<Rightarrow> float64 \<Rightarrow> float64" where
  "fmul x y = fl (x * y)"

text \<open>
  \<open>a / b\<close> on two Python integers: true division, the correctly rounded quotient, and
  \<open>ZeroDivisionError\<close> for a zero divisor.
\<close>

definition py_truediv :: "int \<Rightarrow> int \<Rightarrow> py_error + float64" where
  "py_truediv a b = (if b = 0 then Inl ZeroDivisionError else Inr (fl (of_int a / of_int b)))"

section \<open>The trainer (warehouseRobotTrain.py)\<close>

text \<open>Sequencing of fallible steps: the first exception leaves the computation.\<close>

fun bind_err :: "py_error + 'a \<Rightarrow> ('a \<Rightarrow> py_error + 'b) \<Rightarrow> py_error + 'b" where
  "bind_err (Inl e) f = Inl e"
| "bind_err (Inr x) f = f x"

text \<open>
  The Q-table is a dense five-dimensional \<open>float64\<close> array: its shape and its cells. Cells
  are read and written through bounds-checked indices only, so the value of \<open>q_cells\<close>
  outside the shape never matters. \<open>np.zeros\<close> builds the table of the training run.
\<close>

record qtable =
  q_shape :: "nat \<times> nat \<times> nat \<times> nat \<times> nat"
  q_cells :: "nat \<times> nat \<times> nat \<times> nat \<times> nat \<Rightarrow> float64"

definition np_zeros :: "nat \<times> nat \<times> nat \<times> nat \<times> nat \<Rightarrow> qtable" where
  "np_zeros shp = \<lparr>q_shape = shp, q_cells = (\<lambda>_. 0)\<rparr>"

text \<open>
  One integer index into an axis of length \<open>n\<close>, as NumPy resolves it: \<open>0 \<le> i < n\<close> is the
  position \<open>i\<close>, \<open>- n \<le> i < 0\<close> counts from the end, anything else raises \<open>IndexError\<close>.
\<close>

definition np_index :: "nat \<Rightarrow> int \<Rightarrow> py_error + nat" where
  "np_index n i =
     (if 0 \<le> i \<and> i < int n then Inr (nat i)
      else if - int n \<le> i \<and> i < 0 then Inr (nat (i + int n))
      else Inl IndexError)"

text \<open>\<open>q[tuple(state)]\<close>: the row of action values of a state, or \<open>IndexError\<close>.\<close>

definition q_state_idx :: "qtable \<Rightarrow> observation \<Rightarrow> py_error + (nat \<times> nat \<times> nat \<times> nat)" where
  "q_state_idx q state =
     (case q_shape q of (n1, n2, n3, n4, n5) \<Rightarrow>
      case state of (a, b, c, d) \<Rightarrow>
        bind_err (np_index n1 a) (\<lambda>a'.
        bind_err (np_index n2 b) (\<lambda>b'.
        bind_err (np_index n3 c) (\<lambda>c'.
        bind_err (np_index n4 d) (\<lambda>d'. Inr (a', b', c', d'))))))"

definition q_row :: "qtable \<Rightarrow> observation \<Rightarrow> py_error + float64 list" where
  "q_row q state =
     bind_err (q_state_idx q state) (\<lambda>(a, b, c, d).
       Inr (map (\<lambda>k. q_cells q (a, b, c, d, k)) [0..<snd (snd (snd (snd (q_shape q))))]))"

text \<open>\<open>tuple(state) + (action,)\<close> as an index of one cell.\<close>

definition q_state_action_idx ::
  "qtable \<Rightarrow> observation \<Rightarrow> int \<Rightarrow> py_error + (nat \<times> nat \<times> nat \<times> nat \<times> nat)" where
  "q_state_action_idx q state action =
     bind_err (q_state_idx q state) (\<lambda>(a, b, c, d).
     bind_err (np_index (snd (snd (snd (snd (q_shape q))))) action) (\<lambda>k.
       Inr (a, b, c, d, k)))"

text \<open>
  \<open>np.argmax\<close> of a one-dimensional array: a left-to-right scan that moves to a later
  position only for a strictly larger value, so the first maximum wins; \<open>ValueError\<close> on
  an empty array. \<open>np.max\<close> likewise.
\<close>

fun argmax_scan :: "float64 list \<Rightarrow> nat \<Rightarrow> nat \<Rightarrow> float64 \<Rightarrow> nat" where
  "argmax_scan [] i best v = best"
| "argmax_scan (x # xs) i best v =
     (if v < x then argmax_scan xs (Suc i) i x else argmax_scan xs (Suc i) best v)"

fun np_argmax :: "float64 list \<Rightarrow> py_error + nat" where
  "np_argmax [] = Inl ValueError"
| "np_argmax (x # xs) = Inr (argmax_scan xs 1 0 x)"

fun np_max :: "float64 list \<Rightarrow> py_error + float64" where
  "np_max [] = Inl ValueError"
| "np_max (x # xs) = Inr (fold max xs x)"

text \<open>The hyperparameters: the literals \<open>0.9\<close> denote the binary64 number nearest to 9/10.\<close>

definition learning_rate_a :: float64 where
  "learning_rate_a = fl (9 / 10)"

definition discount_factor_g :: float64 where
  "discount_factor_g = fl (9 / 10)"

text \<open>
  Action selection (lines 76 to 83). \<open>u\<close> is the number \<open>random.random()\<close> returns, in
  \<open>[0, 1)\<close>, and \<open>sampled\<close> the action \<open>env.action_space.sample()\<close> returns; both generators
  are libraries', so their results are inputs. \<open>explores\<close> is the guard
  \<open>is_training and random.random() < epsilon\<close>; when \<open>is_training\<close> is false Python does
  not evaluate \<open>random.random()\<close> at all.
\<close>

definition explores :: "bool \<Rightarrow> float64 \<Rightarrow> float64 \<Rightarrow> bool" where
  "explores is_training epsilon u = (is_training \<and> u < epsilon)"

definition select_action ::
  "bool \<Rightarrow> float64 \<Rightarrow> float64 \<Rightarrow> int \<Rightarrow> qtable \<Rightarrow> observation \<Rightarrow> py_error + int" where
  "select_action is_training epsilon u sampled q state =
     (if explores is_training epsilon u then Inr sampled
      else bind_err (q_row q state) (\<lambda>row.
           bind_err (np_argmax row) (\<lambda>k. Inr (int k))))"

text \<open>
  The value written by the Q-table update (lines 97 to 98), with the operations in the
  order Python evaluates them, and the update itself: both reads of \<open>q[q_state_action_idx]\<close>
  and the read of \<open>q[q_new_state_idx]\<close> are bounds-checked, then one cell is written.
\<close>

definition td_value :: "float64 \<Rightarrow> int \<Rightarrow> float64 \<Rightarrow> float64" where
  "td_value qsa rew max_next =
     fadd qsa
       (fmul learning_rate_a (fsub (fadd (of_int rew) (fmul discount_factor_g max_next)) qsa))"

definition q_update ::
  "qtable \<Rightarrow> observation \<Rightarrow> int \<Rightarrow> int \<Rightarrow> observation \<Rightarrow> py_error + qtable" where
  "q_update q state action rew new_state =
     bind_err (q_state_action_idx q state action) (\<lambda>idx.
     bind_err (q_row q new_state) (\<lambda>row.
     bind_err (np_max row) (\<lambda>m.
       Inr (q\<lparr>q_cells := (q_cells q)(idx := td_value (q_cells q idx) rew m)\<rparr>))))"

text \<open>
  The variables of the episode loop, and one pass through the body of \<open>while(not
  terminated)\<close> (lines 76 to 108) in episode \<open>i\<close>. The step counts are stored in a
  \<open>float64\<close> array.
\<close>

record run_state =
  rs_env :: WarehouseRobotEnv
  rs_q :: qtable
  rs_state :: observation
  rs_terminated :: bool
  rs_step_count :: nat
  rs_steps_per_episode :: "float64 list"

definition loop_body ::
  "bool \<Rightarrow> float64 \<Rightarrow> nat \<Rightarrow> float64 \<times> int \<Rightarrow> run_state \<Rightarrow> py_error + run_state" where
  "loop_body is_training epsilon i draw rs =
     bind_err (select_action is_training epsilon (fst draw) (snd draw) (rs_q rs) (rs_state rs))
       (\<lambda>action.
     bind_err (step (rs_env rs) action) (\<lambda>res.
     bind_err (if is_training
               then q_update (rs_q rs) (rs_state rs) action (reward res) (obs res)
               else Inr (rs_q rs)) (\<lambda>q'.
     let rs1 = rs\<lparr>rs_env := env_after res, rs_q := q', rs_state := obs res,
                  rs_terminated := terminated res,
                  rs_step_count := rs_step_count rs + 1\<rparr>
     in if terminated res
        then (if i < length (rs_steps_per_episode rs1)
              then Inr (rs1\<lparr>rs_steps_per_episode :=
                              (rs_steps_per_episode rs1)[i := fl (of_nat (rs_step_count rs1))],
                            rs_step_count := 0\<rparr>)
              else Inl IndexError)
        else Inr rs1)))"

text \<open>
  The exploration rate after an episode (line 111): \<open>max(epsilon - 1/episodes, 0)\<close>, with the
  quotient and the difference rounded to binary64.
\<close>

definition epsilon_decay :: "int \<Rightarrow> float64 \<Rightarrow> py_error + float64" where
  "epsilon_decay episodes epsilon =
     bind_err (py_truediv 1 episodes) (\<lambda>d. Inr (max (fsub epsilon d) 0))"

text \<open>
  The loop \<open>while(not terminated)\<close> of episode \<open>i\<close>. Nothing in the code bounds it, so the
  model runs it on fuel: \<open>None\<close> means the loop was still running when the fuel ran out.
  \<open>draws k\<close> is the pair of library draws of the \<open>k\<close>-th pass.
\<close>

fun episode_loop ::
  "nat \<Rightarrow> bool \<Rightarrow> float64 \<Rightarrow> nat \<Rightarrow> (nat \<Rightarrow> float64 \<times> int) \<Rightarrow> nat \<Rightarrow> run_state
   \<Rightarrow> (py_error + run_state) option" where
  "episode_loop 0 is_training epsilon i draws k rs =
     (if rs_terminated rs then Some (Inr rs) else None)"
| "episode_loop (Suc fuel) is_training epsilon i draws k rs =
     (if rs_terminated rs then Some (Inr rs)
      else case loop_body is_training epsilon i (draws k) rs of
             Inl e \<Rightarrow> Some (Inl e)
           | Inr rs' \<Rightarrow> episode_loop fuel is_training epsilon i draws (Suc k) rs')"

text \<open>
  The loop \<open>for i in range(episodes)\<close>: \<open>env.reset()\<close> without a seed (the entropy that
  seeds the generator in episode \<open>i\<close> is \<open>entropy i\<close>), the episode, the decay of \<open>epsilon\<close>.
  The state is \<open>epsilon\<close>, the generator and the loop variables. The generator state that
  the \<open>random.random()\<close> calls of an episode leave is not tracked: the next \<open>reset\<close>
  overwrites it.
\<close>

fun episodes_loop ::
  "'g rng \<Rightarrow> nat \<Rightarrow> bool \<Rightarrow> int \<Rightarrow> (nat \<Rightarrow> 'g) \<Rightarrow> (nat \<Rightarrow> nat \<Rightarrow> float64 \<times> int) \<Rightarrow> nat list
   \<Rightarrow> float64 \<times> 'g \<times> run_state \<Rightarrow> (py_error + (float64 \<times> 'g \<times> run_state)) option" where
  "episodes_loop R fuel is_training episodes entropy draws [] st = Some (Inr st)"
| "episodes_loop R fuel is_training episodes entropy draws (i # rest) (epsilon, g, rs) =
     (case env_reset R None (entropy i) (rs_env rs, g) of
        Inl e \<Rightarrow> Some (Inl e)
      | Inr (state, E, g') \<Rightarrow>
          (case episode_loop fuel is_training epsilon i (draws i) 0
                  (rs\<lparr>rs_env := E, rs_state := state, rs_terminated := False\<rparr>) of
             None \<Rightarrow> None
           | Some (Inl e) \<Rightarrow> Some (Inl e)
           | Some (Inr rs') \<Rightarrow>
               (case epsilon_decay episodes epsilon of
                  Inl e \<Rightarrow> Some (Inl e)
                | Inr epsilon' \<Rightarrow>
                    episodes_loop R fuel is_training episodes entropy draws rest
                      (epsilon', g', rs'))))"

text \<open>
  The moving average of lines 120 to 122. \<open>xs[lo:hi]\<close> with non-negative bounds is the
  part of \<open>xs\<close> from position \<open>lo\<close> up to, not including, position \<open>hi\<close>, cut at the end of
  \<open>xs\<close>. \<open>np.mean\<close> divides the sum by the count and gives \<open>nan\<close> (here \<open>None\<close>) for an
  empty array; NumPy adds long arrays pairwise rather than left to right, which gives the
  same sum whenever the partial sums are exact, as they are for step counts.
\<close>

definition py_slice :: "'a list \<Rightarrow> int \<Rightarrow> int \<Rightarrow> 'a list" where
  "py_slice xs lo hi = drop (nat lo) (take (nat hi) xs)"

definition np_mean :: "float64 list \<Rightarrow> float64 option" where
  "np_mean xs =
     (if xs = [] then None else Some (fl (foldl fadd 0 xs / of_nat (length xs))))"

definition steps_window :: "float64 list \<Rightarrow> nat \<Rightarrow> float64 list" where
  "steps_window steps_per_episode t =
     py_slice steps_per_episode (max 0 (int t - 100)) (int t + 1)"

definition sum_steps :: "float64 list \<Rightarrow> float64 option list" where
  "sum_steps steps_per_episode =
     map (\<lambda>t. np_mean (steps_window steps_per_episode t)) [0..<length steps_per_episode]"

text \<open>
  \<open>run_q(episodes, is_training, render)\<close>. \<open>g\<close> is the generator state at the call,
  \<open>entropy0\<close> the entropy that seeds the generator in the environment's constructor and
  \<open>loaded\<close> the table \<open>pickle.load\<close> returns when the run is not a training run (a missing
  or unreadable file is outside the model); the table is used as it is loaded.
  \<open>np.zeros(episodes)\<close> raises \<open>ValueError\<close> for a negative count. The result holds the
  final table and exploration rate, the step counts, the series handed to the plot, and
  the table written to the file, if any. Before the first \<open>reset\<close> of the loop the
  variables \<open>state\<close> and \<open>terminated\<close> are unassigned; the model fills them with values
  that this \<open>reset\<close> replaces.
\<close>

record run_result =
  final_q :: qtable
  final_epsilon :: float64
  final_steps :: "float64 list"
  plotted :: "float64 option list"
  saved :: "qtable option"

definition run_q ::
  "'g rng \<Rightarrow> nat \<Rightarrow> 'g \<Rightarrow> (nat \<Rightarrow> 'g) \<Rightarrow> (nat \<Rightarrow> nat \<Rightarrow> float64 \<times> int) \<Rightarrow> 'g
   \<Rightarrow> qtable \<Rightarrow> int \<Rightarrow> bool \<Rightarrow> bool \<Rightarrow> (py_error + run_result) option" where
  "run_q R fuel entropy0 entropy draws g loaded episodes is_training render =
     (case gym_make R (if render then Some ''human'' else None) entropy0 g of
        Inl e \<Rightarrow> Some (Inl e)
      | Inr (E, g0) \<Rightarrow>
          (let q = (if is_training
                    then np_zeros (nat (env_grid_rows E), nat (env_grid_cols E),
                                   nat (env_grid_rows E), nat (env_grid_cols E), 4)
                    else loaded)
           in if episodes < 0 then Some (Inl ValueError)
              else (let rs0 = \<lparr>rs_env = E, rs_q = q, rs_state = observe (warehouse_robot E),
                                rs_terminated = False, rs_step_count = 0,
                                rs_steps_per_episode = replicate (nat episodes) 0\<rparr>
                    in case episodes_loop R fuel is_training episodes entropy draws
                              [0..<nat episodes] (1, g0, rs0) of
                         None \<Rightarrow> None
                       | Some (Inl e) \<Rightarrow> Some (Inl e)
                       | Some (Inr (epsilon, g', rs)) \<Rightarrow>
                           Some (Inr \<lparr>final_q = rs_q rs, final_epsilon = epsilon,
                                      final_steps = rs_steps_per_episode rs,
                                      plotted = sum_steps (rs_steps_per_episode rs),
                                      saved = (if is_training then Some (rs_q rs) else None)\<rparr>))))"

section \<open>Notions of the specification\<close>

text \<open>
  The grid invariant of a position, and the move as the specification words it: the
  neighbouring cell in the requested direction when that cell lies in the grid, the old
  cell otherwise.
\<close>

definition in_grid :: "int \<Rightarrow> int \<Rightarrow> int \<times> int \<Rightarrow> bool" where
  "in_grid R C p = (0 \<le> fst p \<and> fst p \<le> R - 1 \<and> 0 \<le> snd p \<and> snd p \<le> C - 1)"

fun neighbour :: "int \<times> int \<Rightarrow> RobotAction \<Rightarrow> int \<times> int" where
  "neighbour (r, c) LEFT = (r, c - 1)"
| "neighbour (r, c) DOWN = (r + 1, c)"
| "neighbour (r, c) RIGHT = (r, c + 1)"
| "neighbour (r, c) UP = (r - 1, c)"

definition clamped_move :: "int \<Rightarrow> int \<Rightarrow> int \<times> int \<Rightarrow> RobotAction \<Rightarrow> int \<times> int" where
  "clamped_move R C p a = (if in_grid R C (neighbour p a) then neighbour p a else p)"

text \<open>
  The greedy choice as the specification words it: a position of the maximum of the row
  with no equal or larger value before it.
\<close>

definition is_first_argmax :: "float64 list \<Rightarrow> nat \<Rightarrow> bool" where
  "is_first_argmax row k =
     (k < length row \<and> (\<forall>j < length row. row ! j \<le> row ! k) \<and> (\<forall>j < k. row ! j < row ! k))"

text \<open>
  The states of a training run: the table has the shape \<open>np.zeros\<close> gave it from the grid
  size, robot and target are in the grid, and \<open>state\<close> is the observation of the
  environment.
\<close>

definition trainer_inv :: "run_state \<Rightarrow> bool" where
  "trainer_inv rs =
     (let w = warehouse_robot (rs_env rs)
      in q_shape (rs_q rs)
           = (nat (grid_rows w), nat (grid_cols w), nat (grid_rows w), nat (grid_cols w), 4)
         \<and> in_grid (grid_rows w) (grid_cols w) (robot_pos w)
         \<and> in_grid (grid_rows w) (grid_cols w) (target_pos w)
         \<and> rs_state rs = observe w)"

text \<open>
  What holds of the loop variables throughout a training run of \<open>n\<close> episodes: the grid has
  at least two rows and two columns, the table has the shape of the grid, and there are
  \<open>n\<close> step counts.
\<close>

definition run_inv :: "nat \<Rightarrow> run_state \<Rightarrow> bool" where
  "run_inv n rs =
     (let w = warehouse_robot (rs_env rs)
      in 2 \<le> grid_rows w \<and> 2 \<le> grid_cols w
         \<and> q_shape (rs_q rs)
              = (nat (grid_rows w), nat (grid_cols w), nat (grid_rows w), nat (grid_cols w), 4)
         \<and> length (rs_steps_per_episode rs) = n)"

text \<open>
  The decay applied \<open>k\<close> times, once after each of \<open>k\<close> episodes; the same schedule in exact
  rational arithmetic, as the specification words it; and a bound on the binary64
  schedule after \<open>k\<close> of \<open>N\<close> applications, the exact value \<open>1 - k/N\<close> plus at most \<open>2\<close> to
  the \<open>- 53\<close> of rounding error for each application.
\<close>

fun decay_times :: "nat \<Rightarrow> int \<Rightarrow> float64 \<Rightarrow> py_error + float64" where
  "decay_times 0 episodes epsilon = Inr epsilon"
| "decay_times (Suc k) episodes epsilon =
     bind_err (epsilon_decay episodes epsilon) (decay_times k episodes)"

definition decay_exact :: "int \<Rightarrow> rat \<Rightarrow> rat" where
  "decay_exact episodes epsilon = max (epsilon - 1 / of_int episodes) 0"

definition decay_bound :: "nat \<Rightarrow> nat \<Rightarrow> rat" where
  "decay_bound N k = 1 - of_nat k / of_nat N + of_nat k / 2 ^ 53"

text \<open>
  The trailing window of the specification: the most recent \<open>min(w, t + 1)\<close> entries up to
  and including position \<open>t\<close>.
\<close>

definition trailing_window :: "nat \<Rightarrow> 'a list \<Rightarrow> nat \<Rightarrow> 'a list" where
  "trailing_window w xs t = drop (t + 1 - min w (t + 1)) (take (t + 1) xs)"

text \<open>
  An integer that NumPy accepts as an index into an axis of length \<open>n\<close>.
\<close>

definition in_axis :: "nat \<Rightarrow> int \<Rightarrow> bool" where
  "in_axis n i = (- int n \<le> i \<and> i < int n)"

section \<open>Example data\<close>

text \<open>
  A generator whose state is a counter and whose draws return it; a 4 by 5 grid and its
  environment; a training state one move left of the target on the all-zero table; a
  table with a tie in the states of column 0 and another row elsewhere; a table with two
  non-zero cells and a training state on it; a table
  of shape \<open>(5, 6, 5, 6, 4)\<close> whose largest action value points right until the columns
  agree and then down, and the states of an evaluation run with it on the 4 by 5 grid; and
  the step counts of 101 episodes, 204 steps in the first and 2 in each of the others.
\<close>

definition counter_rng :: "int rng" where
  "counter_rng = \<lparr>seed_state = (\<lambda>k. k), randbelow = (\<lambda>g n. (g, g + 1))\<rparr>"

definition grid_4x5 :: WarehouseRobot where
  "grid_4x5 = \<lparr>grid_rows = 4, grid_cols = 5, robot_pos = (3, 0), target_pos = (2, 3),
               last_action = None\<rparr>"

definition near_goal :: run_state where
  "near_goal =
     \<lparr>rs_env = \<lparr>env_grid_rows = 4, env_grid_cols = 5, render_mode = None,
                 warehouse_robot = \<lparr>grid_rows = 4, grid_cols = 5, robot_pos = (2, 2),
                                     target_pos = (2, 3), last_action = None\<rparr>\<rparr>,
      rs_q = np_zeros (4, 5, 4, 5, 4),
      rs_state = (2, 2, 2, 3),
      rs_terminated = False,
      rs_step_count = 6,
      rs_steps_per_episode = [0]\<rparr>"

definition q_rows :: qtable where
  "q_rows = \<lparr>q_shape = (4, 5, 4, 5, 4),
             q_cells = (\<lambda>(a, b, c, d, k).
                if b = 0 then (if k = 1 \<or> k = 2 then 1 / 2 else 0)
                else (if k = 3 then 1 else 0))\<rparr>"

definition q_mid :: qtable where
  "q_mid = \<lparr>q_shape = (4, 5, 4, 5, 4),
            q_cells = (\<lambda>(a, b, c, d, k).
               if (a, b, c, d, k) = (1, 1, 2, 3, 2) then 1 / 2
               else if (a, b, c, d, k) = (1, 2, 2, 3, 1) then 1 / 4
               else 0)\<rparr>"

definition mid_run :: run_state where
  "mid_run =
     \<lparr>rs_env = \<lparr>env_grid_rows = 4, env_grid_cols = 5, render_mode = None,
                 warehouse_robot = \<lparr>grid_rows = 4, grid_cols = 5, robot_pos = (1, 1),
                                     target_pos = (2, 3), last_action = None\<rparr>\<rparr>,
      rs_q = q_mid,
      rs_state = (1, 1, 2, 3),
      rs_terminated = False,
      rs_step_count = 3,
      rs_steps_per_episode = [0]\<rparr>"

definition env_4x5 :: WarehouseRobotEnv where
  "env_4x5 = \<lparr>env_grid_rows = 4, env_grid_cols = 5, render_mode = None,
              warehouse_robot = grid_4x5\<rparr>"

definition q_5x6 :: qtable where
  "q_5x6 = \<lparr>q_shape = (5, 6, 5, 6, 4),
            q_cells = (\<lambda>(a, b, c, d, k).
               if (b < d \<and> k = 2) \<or> (b = d \<and> a < c \<and> k = 1) then 1 else 0)\<rparr>"

definition eval_state :: "int \<times> int \<Rightarrow> RobotAction option \<Rightarrow> bool \<Rightarrow> nat \<Rightarrow> float64 list \<Rightarrow> run_state" where
  "eval_state p la term n steps =
     \<lparr>rs_env = env_4x5\<lparr>warehouse_robot :=
                  \<lparr>grid_rows = 4, grid_cols = 5, robot_pos = p, target_pos = (2, 1),
                   last_action = la\<rparr>\<rparr>,
      rs_q = q_5x6, rs_state = (fst p, snd p, 2, 1), rs_terminated = term,
      rs_step_count = n, rs_steps_per_episode = steps\<rparr>"

definition steps_101 :: "float64 list" where
  "steps_101 = 204 # replicate 100 2"

section \<open>Properties of the grid and the environment\<close>

lemma RobotAction_of_value: "RobotAction_of (action_value a) = Inr a"
  by (cases a) (simp_all add: RobotAction_of_def)

text \<open>
  Claim C1. \<open>perform_action\<close> returns true exactly when the robot's position after the
  move equals the target position; for each of the four actions \<open>step\<close> succeeds with
  reward 1 when the target is reached on that step and 0 otherwise, \<open>terminated\<close> equal to
  that boolean, and \<open>truncated\<close> false.
\<close>

theorem C1_goal_test_and_reward:
  "fst (perform_action s a)
     = (robot_pos (snd (perform_action s a)) = target_pos (snd (perform_action s a)))
   \<and> target_pos (snd (perform_action s a)) = target_pos s
   \<and> (\<exists>res. step E (action_value a) = Inr res
        \<and> terminated res = fst (perform_action (warehouse_robot E) a)
        \<and> reward res = (if fst (perform_action (warehouse_robot E) a) then 1 else 0)
        \<and> truncated res = False
        \<and> warehouse_robot (env_after res) = snd (perform_action (warehouse_robot E) a))"
  by (simp add: step_def RobotAction_of_value perform_action_def Let_def)

lemma perform_action_moves:
  assumes "in_grid (grid_rows s) (grid_cols s) (robot_pos s)"
  shows "in_grid (grid_rows s) (grid_cols s) (robot_pos (snd (perform_action s a)))
         \<and> robot_pos (snd (perform_action s a))
             = clamped_move (grid_rows s) (grid_cols s) (robot_pos s) a"
proof (cases "robot_pos s")
  case (Pair r c)
  with assms show ?thesis
    by (cases a) (auto simp: perform_action_def in_grid_def clamped_move_def Let_def)
qed

text \<open>
  Claim C2. From a position inside the grid, each of the four actions leads to a position
  inside the grid: the neighbouring cell if it is in the grid, the unchanged position if
  the move would leave the grid. No action fails. (The bounds \<open>R \<ge> 2\<close> and \<open>C \<ge> 2\<close> of the
  claim are not needed: a position inside the grid already makes both at least 1.)
\<close>

theorem C2_boundary_clamp:
  assumes "in_grid (grid_rows s) (grid_cols s) (robot_pos s)"
  shows "in_grid (grid_rows s) (grid_cols s) (robot_pos (snd (perform_action s a)))
         \<and> robot_pos (snd (perform_action s a))
             = clamped_move (grid_rows s) (grid_cols s) (robot_pos s) a"
proof (cases "robot_pos s")
  case (Pair r c)
  with assms show ?thesis
    by (cases a) (auto simp: perform_action_def in_grid_def clamped_move_def Let_def)
qed

theorem C2_boundary_clamp_witness:
  "in_grid (grid_rows grid_4x5) (grid_cols grid_4x5) (robot_pos grid_4x5)
   \<and> robot_pos (snd (perform_action grid_4x5 LEFT)) = (3, 0)
   \<and> robot_pos (snd (perform_action grid_4x5 DOWN)) = (3, 0)
   \<and> robot_pos (snd (perform_action grid_4x5 RIGHT)) = (3, 1)
   \<and> robot_pos (snd (perform_action grid_4x5 UP)) = (2, 0)"
proof -
  have h: "in_grid (grid_rows grid_4x5) (grid_cols grid_4x5) (robot_pos grid_4x5)"
    by (simp add: in_grid_def grid_4x5_def)
  show ?thesis
    using h C2_boundary_clamp [OF h, of LEFT] C2_boundary_clamp [OF h, of DOWN]
      C2_boundary_clamp [OF h, of RIGHT] C2_boundary_clamp [OF h, of UP]
    by (simp add: clamped_move_def in_grid_def grid_4x5_def)
qed

lemma perform_action_keeps:
  "target_pos (snd (perform_action s a)) = target_pos s
   \<and> grid_rows (snd (perform_action s a)) = grid_rows s
   \<and> grid_cols (snd (perform_action s a)) = grid_cols s"
  by (simp add: perform_action_def Let_def)

text \<open>
  Claim C10. \<open>perform_action\<close> writes the robot's position and the last action and nothing
  else: the target position, the row count and the column count are the ones before the call.
\<close>

theorem C10_perform_action_frame:
  "target_pos (snd (perform_action s a)) = target_pos s
   \<and> grid_rows (snd (perform_action s a)) = grid_rows s
   \<and> grid_cols (snd (perform_action s a)) = grid_cols s
   \<and> last_action (snd (perform_action s a)) = Some a
   \<and> snd (perform_action s a)
       = s\<lparr>robot_pos := robot_pos (snd (perform_action s a)), last_action := Some a\<rparr>"
  by (simp add: perform_action_def Let_def)

lemma randint_range:
  assumes "a \<le> b"
  shows "\<exists>v g'. randint R g a b = Inr (v, g') \<and> a \<le> v \<and> v \<le> b"
proof -
  have w: "0 < b - a + 1" using assms by simp
  have "0 \<le> fst (randbelow R g (b - a + 1)) mod (b - a + 1)"
    using w by (rule pos_mod_sign)
  moreover have "fst (randbelow R g (b - a + 1)) mod (b - a + 1) < b - a + 1"
    using w by (rule pos_mod_bound)
  ultimately show ?thesis
    using assms by (simp add: randint_def Let_def)
qed

lemma reset_succeeds:
  assumes "2 \<le> grid_rows s" and "2 \<le> grid_cols s"
  shows "\<exists>s' g'. reset R seed entropy (s, g) = Inr (s', g')
           \<and> robot_pos s' = (0, 0)
           \<and> 1 \<le> fst (target_pos s') \<and> fst (target_pos s') \<le> grid_rows s - 1
           \<and> 1 \<le> snd (target_pos s') \<and> snd (target_pos s') \<le> grid_cols s - 1
           \<and> target_pos s' \<noteq> (0, 0)
           \<and> fst (target_pos s') \<noteq> 0 \<and> snd (target_pos s') \<noteq> 0
           \<and> grid_rows s' = grid_rows s \<and> grid_cols s' = grid_cols s"
proof -
  let ?g1 = "random_seed R seed entropy g"
  from assms(1) obtain row g2 where
    r: "randint R ?g1 1 (grid_rows s - 1) = Inr (row, g2)" "1 \<le> row" "row \<le> grid_rows s - 1"
    using randint_range [of 1 "grid_rows s - 1" R ?g1] by auto
  from assms(2) obtain col g3 where
    c: "randint R g2 1 (grid_cols s - 1) = Inr (col, g3)" "1 \<le> col" "col \<le> grid_cols s - 1"
    using randint_range [of 1 "grid_cols s - 1" R g2] by auto
  have "reset R seed entropy (s, g) = Inr (s\<lparr>robot_pos := (0, 0), target_pos := (row, col)\<rparr>, g3)"
    using r(1) c(1) by (simp add: reset_def Let_def)
  then show ?thesis using r(2,3) c(2,3) by auto
qed

text \<open>
  Claim C6. On a grid with at least two rows and two columns, with any seed or none,
  \<open>reset\<close> succeeds, puts the robot at \<open>(0, 0)\<close> and draws a target with row in
  \<open>[1, R - 1]\<close> and column in \<open>[1, C - 1]\<close>; so the target is not \<open>(0, 0)\<close> and has neither
  row 0 nor column 0.
\<close>

theorem C6_reset_goal_range:
  assumes "2 \<le> grid_rows s" and "2 \<le> grid_cols s"
  shows "\<exists>s' g'. reset R seed entropy (s, g) = Inr (s', g')
           \<and> robot_pos s' = (0, 0)
           \<and> 1 \<le> fst (target_pos s') \<and> fst (target_pos s') \<le> grid_rows s - 1
           \<and> 1 \<le> snd (target_pos s') \<and> snd (target_pos s') \<le> grid_cols s - 1
           \<and> target_pos s' \<noteq> (0, 0)
           \<and> fst (target_pos s') \<noteq> 0 \<and> snd (target_pos s') \<noteq> 0
           \<and> grid_rows s' = grid_rows s \<and> grid_cols s' = grid_cols s"
  using assms by (rule reset_succeeds)

theorem C6_reset_goal_range_witness:
  "2 \<le> grid_rows grid_4x5 \<and> 2 \<le> grid_cols grid_4x5
   \<and> reset counter_rng (Some 7) 0 (grid_4x5, 99)
       = Inr (grid_4x5\<lparr>robot_pos := (0, 0), target_pos := (2, 1)\<rparr>, 9)"
proof -
  have h1: "2 \<le> grid_rows grid_4x5" and h2: "2 \<le> grid_cols grid_4x5"
    by (simp_all add: grid_4x5_def)
  have e: "reset counter_rng (Some 7) 0 (grid_4x5, 99)
             = Inr (grid_4x5\<lparr>robot_pos := (0, 0), target_pos := (2, 1)\<rparr>, 9)"
    by (simp add: reset_def randint_def random_seed_def counter_rng_def grid_4x5_def Let_def)
  show ?thesis
    using h1 h2 e C6_reset_goal_range [OF h1 h2, of counter_rng "Some 7" 0 99] by simp
qed

text \<open>
  Claim C7. \<open>reset\<close> seeds the generator before it draws, so the target it places depends
  on the integer seed and the grid size only: two calls with the same seed \<open>K\<close> on a grid
  of the same size give the same outcome and the same target, whatever the generator
  state, the robot's position and the old target were before each call.
\<close>

theorem C7_reset_seed_determinism:
  assumes "grid_rows s1 = grid_rows s2" and "grid_cols s1 = grid_cols s2"
  shows "map_sum id (\<lambda>r. target_pos (fst r)) (reset R (Some K) e1 (s1, g1))
         = map_sum id (\<lambda>r. target_pos (fst r)) (reset R (Some K) e2 (s2, g2))"
  using assms
  by (simp add: reset_def random_seed_def Let_def split: sum.splits prod.splits)

theorem C7_reset_seed_determinism_witness:
  "grid_rows grid_4x5 = grid_rows (snd (perform_action grid_4x5 UP))
   \<and> grid_cols grid_4x5 = grid_cols (snd (perform_action grid_4x5 UP))
   \<and> map_sum id (\<lambda>r. target_pos (fst r)) (reset counter_rng (Some 7) 0 (grid_4x5, 99))
       = Inr (2, 1)
   \<and> map_sum id (\<lambda>r. target_pos (fst r))
        (reset counter_rng (Some 7) 5 (snd (perform_action grid_4x5 UP), 12)) = Inr (2, 1)"
proof -
  have h1: "grid_rows grid_4x5 = grid_rows (snd (perform_action grid_4x5 UP))"
    and h2: "grid_cols grid_4x5 = grid_cols (snd (perform_action grid_4x5 UP))"
    by (simp_all add: perform_action_def Let_def)
  have e: "map_sum id (\<lambda>r. target_pos (fst r)) (reset counter_rng (Some 7) 0 (grid_4x5, 99))
             = Inr (2, 1)"
    by (simp add: reset_def randint_def random_seed_def counter_rng_def grid_4x5_def Let_def)
  show ?thesis
    using h1 h2 e C7_reset_seed_determinism [OF h1 h2, of counter_rng 7 0 99 5 12] by simp
qed

section \<open>Properties of binary64 rounding\<close>

lemma round_even_error: "\<bar>of_int (round_even y) - y\<bar> \<le> 1 / 2"
proof -
  have "of_int \<lfloor>y\<rfloor> \<le> y" "y < of_int \<lfloor>y\<rfloor> + 1" by linarith+
  then show ?thesis
    by (auto simp: round_even_def Let_def abs_le_iff)
qed

lemma round_even_int: "round_even (of_int z) = z"
  by (simp add: round_even_def)

lemma bitlen_powi:
  assumes "0 < p"
  shows "2 powi (bitlen p - 1) \<le> (of_int p :: rat) \<and> (of_int p :: rat) < 2 powi (bitlen p)"
proof -
  from bitlen_bounds [OF assms] have lo: "2 ^ nat (bitlen p - 1) \<le> p" and hi: "p < 2 ^ nat (bitlen p)"
    by simp_all
  have b1: "1 \<le> bitlen p" using assms by (simp add: bitlen_alt_def)
  have "(of_int (2 ^ nat (bitlen p - 1)) :: rat) \<le> of_int p" using lo by (rule of_int_le_iff [THEN iffD2])
  then have 1: "2 powi (bitlen p - 1) \<le> (of_int p :: rat)"
    using b1 by (simp add: power_int_def)
  have "(of_int p :: rat) < of_int (2 ^ nat (bitlen p))" using hi by (rule of_int_less_iff [THEN iffD2])
  then have 2: "(of_int p :: rat) < 2 powi (bitlen p)"
    using b1 by (simp add: power_int_def)
  from 1 2 show ?thesis ..
qed

lemma ilog2_bounds:
  assumes "0 < x"
  shows "2 powi (ilog2 x) \<le> x \<and> x < 2 powi (ilog2 x + 1)"
proof -
  obtain p q where pq: "quotient_of x = (p, q)" by (cases "quotient_of x")
  have q: "0 < q" using pq by (rule quotient_of_denom_pos)
  have x: "x = of_int p / of_int q" using pq by (rule quotient_of_div)
  have p: "0 < p" using assms q unfolding x by (simp add: zero_less_divide_iff)
  define e0 where "e0 = bitlen p - bitlen q"
  note P = bitlen_powi [OF p] and Q = bitlen_powi [OF q]
  have qpos: "(0::rat) < of_int q" using q by simp
  have "x < 2 powi (bitlen p) / 2 powi (bitlen q - 1)"
    unfolding x using P Q p by (intro frac_less) simp_all
  also have "\<dots> = 2 powi (e0 + 1)"
    by (simp add: e0_def power_int_diff [symmetric] algebra_simps)
  finally have up: "x < 2 powi (e0 + 1)" .
  have "2 powi (bitlen p - 1) / 2 powi (bitlen q) < x"
    unfolding x using P Q qpos by (intro frac_less2) simp_all
  moreover have "2 powi (bitlen p - 1) / 2 powi (bitlen q) = (2::rat) powi (e0 - 1)"
    by (simp add: e0_def power_int_diff [symmetric] algebra_simps)
  ultimately have lo: "2 powi (e0 - 1) < x" by simp
  show ?thesis
  proof (cases "2 powi e0 \<le> x")
    case True
    then have "ilog2 x = e0" by (simp add: ilog2_def pq e0_def Let_def)
    with True up show ?thesis by simp
  next
    case False
    then have "ilog2 x = e0 - 1" by (simp add: ilog2_def pq e0_def Let_def)
    with False lo show ?thesis by simp
  qed
qed

lemma ilog2_below_one:
  assumes "0 < x" and "x < 1"
  shows "ilog2 x \<le> - 1"
proof -
  obtain p q where pq: "quotient_of x = (p, q)" by (cases "quotient_of x")
  have q: "0 < q" using pq by (rule quotient_of_denom_pos)
  have x: "x = of_int p / of_int q" using pq by (rule quotient_of_div)
  have "p < q" using assms(2) q unfolding x by simp
  then have "bitlen p \<le> bitlen q"
    by (simp add: bitlen_def floorlog_mono)
  then have e0: "bitlen p - bitlen q \<le> 0" by simp
  show ?thesis
  proof (cases "2 powi (bitlen p - bitlen q) \<le> x")
    case True
    have "bitlen p - bitlen q \<noteq> 0"
    proof
      assume "bitlen p - bitlen q = 0"
      with True have "1 \<le> x" by simp
      with assms(2) show False by simp
    qed
    with e0 True show ?thesis by (simp add: ilog2_def pq Let_def)
  next
    case False
    with e0 show ?thesis by (simp add: ilog2_def pq Let_def)
  qed
qed

lemma fl_error_unit:
  assumes "\<bar>x\<bar> \<le> 1"
  shows "\<bar>fl x - x\<bar> \<le> 1 / 2 ^ 54"
proof -
  consider "x = 0" | "x = 1" | "x = - 1" | "x \<noteq> 0" "\<bar>x\<bar> < 1"
    using assms by fastforce
  then show ?thesis
  proof cases
    case 1
    then show ?thesis by (simp add: fl_def)
  next
    case 2
    have "fl 1 = 1" by code_simp
    with 2 show ?thesis by simp
  next
    case 3
    have "fl (- 1) = - 1" by code_simp
    with 3 show ?thesis by simp
  next
    case 4
    define e where "e = max (ilog2 \<bar>x\<bar> - 52) (- 1074)"
    define y where "y = x / 2 powi e"
    have "ilog2 \<bar>x\<bar> \<le> - 1" using 4 by (intro ilog2_below_one) auto
    then have e: "e \<le> - 53" by (simp add: e_def)
    have pos: "(0::rat) < 2 powi e" by simp
    have xy: "x = y * 2 powi e" by (simp add: y_def)
    have "fl x = of_int (round_even y) * 2 powi e"
      using 4(1) by (simp add: fl_def e_def y_def Let_def)
    then have "fl x - x = (of_int (round_even y) - y) * 2 powi e"
      by (simp add: xy algebra_simps)
    then have "\<bar>fl x - x\<bar> = \<bar>of_int (round_even y) - y\<bar> * 2 powi e"
      by (simp add: abs_mult)
    also have "\<dots> \<le> (1 / 2) * 2 powi e"
      using round_even_error [of y] pos by (intro mult_right_mono) simp_all
    also have "\<dots> \<le> (1 / 2) * 2 powi (- 53)"
      using e by (intro mult_left_mono power_int_increasing) simp_all
    also have "\<dots> = 1 / 2 ^ 54"
      by (simp add: power_int_minus field_simps)
    finally show ?thesis .
  qed
qed

lemma fl_int_exact:
  assumes "\<bar>m\<bar> < 2 ^ 53"
  shows "fl (of_int m) = of_int m"
proof (cases "m = 0")
  case True
  then show ?thesis by (simp add: fl_def)
next
  case False
  define x :: rat where "x = \<bar>of_int m\<bar>"
  have x0: "0 < x" and x1: "1 \<le> x" using False by (simp_all add: x_def)
  have "x = of_int \<bar>m\<bar>" by (simp add: x_def)
  also have "\<dots> < of_int (2 ^ 53)" using assms by (rule of_int_less_iff [THEN iffD2])
  finally have xup: "x < 2 powi 53" by simp
  from ilog2_bounds [OF x0] have b: "2 powi (ilog2 x) \<le> x" "x < 2 powi (ilog2 x + 1)" by simp_all
  have l53: "ilog2 x < 53"
  proof (rule ccontr)
    assume "\<not> ilog2 x < 53"
    then have "(2::rat) powi 53 \<le> 2 powi (ilog2 x)" by (intro power_int_increasing) simp_all
    with b(1) xup show False by simp
  qed
  have l0: "0 \<le> ilog2 x"
  proof (rule ccontr)
    assume "\<not> 0 \<le> ilog2 x"
    then have "(2::rat) powi (ilog2 x + 1) \<le> 2 powi 0" by (intro power_int_increasing) simp_all
    with b(2) x1 show False by simp
  qed
  define n where "n = nat (52 - ilog2 x)"
  have e: "max (ilog2 x - 52) (- 1074) = - int n" using l53 l0 by (simp add: n_def)
  have y: "of_int m / (2::rat) powi (- int n) = of_int (m * 2 ^ n)"
    by (simp add: power_int_minus power_int_def field_simps)
  have "fl (of_int m) = of_int (round_even (of_int m / 2 powi (- int n))) * 2 powi (- int n)"
    using False e by (simp add: fl_def Let_def x_def)
  also have "\<dots> = of_int (m * 2 ^ n) * 2 powi (- int n)"
    unfolding y round_even_int ..
  also have "\<dots> = of_int m"
    by (simp add: power_int_minus power_int_def field_simps)
  finally show ?thesis .
qed

lemma fl_zero: "fl 0 = 0"
  by (simp add: fl_def)

lemma fl_one: "fl 1 = 1"
  by code_simp

lemma fl_small_ints: "fl 0 = 0" "fl 2 = 2" "fl 4 = 4" "fl 204 = 204"
  using fl_int_exact [of 0] fl_int_exact [of 2] fl_int_exact [of 4] fl_int_exact [of 204]
  by simp_all

lemma fl_three: "fl 3 = 3"
  by code_simp

lemma fl_nine_tenths: "fl (9 / 10) = 8106479329266893 / 9007199254740992"
  by code_simp

lemma fl_nine_tenths_idem:
  "fl (8106479329266893 / 9007199254740992) = 8106479329266893 / 9007199254740992"
  by code_simp

section \<open>Action selection and the Q-table update\<close>

lemma argmax_scan_first:
  assumes "best < length ys" and "ys ! best = v"
    and "\<forall>j < length ys. ys ! j \<le> v" and "\<forall>j < best. ys ! j < v"
  shows "is_first_argmax (ys @ xs) (argmax_scan xs (length ys) best v)"
  using assms
proof (induction xs arbitrary: ys best v)
  case Nil
  then show ?case by (simp add: is_first_argmax_def)
next
  case (Cons x xs)
  show ?case
  proof (cases "v < x")
    case True
    have "is_first_argmax ((ys @ [x]) @ xs) (argmax_scan xs (length (ys @ [x])) (length ys) x)"
    proof (rule Cons.IH)
      show "length ys < length (ys @ [x])" by simp
      show "(ys @ [x]) ! length ys = x" by simp
      show "\<forall>j<length (ys @ [x]). (ys @ [x]) ! j \<le> x"
        using Cons.prems(3) True by (auto simp: nth_append less_Suc_eq intro: less_imp_le order_trans)
      show "\<forall>j<length ys. (ys @ [x]) ! j < x"
        using Cons.prems(3) True by (auto simp: nth_append intro: le_less_trans)
    qed
    with True show ?thesis by simp
  next
    case False
    have "is_first_argmax ((ys @ [x]) @ xs) (argmax_scan xs (length (ys @ [x])) best v)"
    proof (rule Cons.IH)
      show "best < length (ys @ [x])" using Cons.prems(1) by simp
      show "(ys @ [x]) ! best = v" using Cons.prems(1,2) by (simp add: nth_append)
      show "\<forall>j<length (ys @ [x]). (ys @ [x]) ! j \<le> v"
        using Cons.prems(3) False by (auto simp: nth_append less_Suc_eq)
      show "\<forall>j<best. (ys @ [x]) ! j < v"
        using Cons.prems(1,4) by (auto simp: nth_append)
    qed
    with False show ?thesis by simp
  qed
qed

lemma np_argmax_first:
  assumes "row \<noteq> []"
  shows "\<exists>k. np_argmax row = Inr k \<and> is_first_argmax row k"
proof -
  from assms obtain x xs where row: "row = x # xs" by (cases row) auto
  have "is_first_argmax ([x] @ xs) (argmax_scan xs (length [x]) 0 x)"
    by (rule argmax_scan_first) simp_all
  then show ?thesis by (simp add: row)
qed

lemma is_first_argmax_unique:
  "is_first_argmax row k \<Longrightarrow> is_first_argmax row k' \<Longrightarrow> k = k'"
  unfolding is_first_argmax_def
  by (metis linorder_neqE_nat not_less)

lemma np_index_ok: "0 \<le> i \<Longrightarrow> i < int n \<Longrightarrow> np_index n i = Inr (nat i)"
  by (simp add: np_index_def)

lemma q_state_idx_ok:
  assumes "q_shape q = (n1, n2, n3, n4, n5)"
    and "0 \<le> a" "a < int n1" "0 \<le> b" "b < int n2" "0 \<le> c" "c < int n3" "0 \<le> d" "d < int n4"
  shows "q_state_idx q (a, b, c, d) = Inr (nat a, nat b, nat c, nat d)"
  using assms by (simp add: q_state_idx_def np_index_ok)

lemma q_row_ok:
  assumes "q_shape q = (n1, n2, n3, n4, n5)"
    and "0 \<le> a" "a < int n1" "0 \<le> b" "b < int n2" "0 \<le> c" "c < int n3" "0 \<le> d" "d < int n4"
  shows "q_row q (a, b, c, d)
         = Inr (map (\<lambda>k. q_cells q (nat a, nat b, nat c, nat d, k)) [0..<n5])"
  using assms by (simp add: q_row_def q_state_idx_ok [OF assms])

lemma np_max_Max: "row \<noteq> [] \<Longrightarrow> np_max row = Inr (Max (set row))"
proof (cases row)
  case Nil
  assume "row \<noteq> []"
  with Nil show ?thesis by simp
next
  case (Cons x xs)
  then show ?thesis using Max.set_eq_fold [of x xs] by simp
qed

lemma q_state_action_idx_ok:
  assumes "q_shape q = (n1, n2, n3, n4, n5)"
    and "0 \<le> a" "a < int n1" "0 \<le> b" "b < int n2" "0 \<le> c" "c < int n3" "0 \<le> d" "d < int n4"
    and "0 \<le> action" "action < int n5"
  shows "q_state_action_idx q (a, b, c, d) action = Inr (nat a, nat b, nat c, nat d, nat action)"
  using assms by (simp add: q_state_action_idx_def q_state_idx_ok [OF assms(1-9)] np_index_ok)

lemma upt_4: "[0..<4] = [0, 1, 2, 3]"
  by (simp add: upt_rec)

text \<open>
  Claim C4. The sampled action is taken exactly when the run is training and the draw
  \<open>u\<close> of \<open>random.random()\<close> is below \<open>\<epsilon>\<close>: of the draws in \<open>[0, 1)\<close> those are the
  interval \<open>[0, \<epsilon>)\<close>. In every other case, so always when not training and always when
  \<open>\<epsilon> = 0\<close>, the action does not depend on \<open>\<epsilon>\<close>, on the draw or on the sampled action,
  and for a state \<open>(a, b, c, d)\<close> inside the table it is the first position \<open>k\<close> of the
  maximum of the action values \<open>Q[a, b, c, d, \<cdot>]\<close> of that state: no action value is
  larger than the one at \<open>k\<close> and every one before \<open>k\<close> is smaller.
\<close>

theorem C4_epsilon_greedy:
  "(u < epsilon \<longrightarrow> select_action True epsilon u sampled q state = Inr sampled)
   \<and> (\<not> explores is_training epsilon u \<longrightarrow> q_shape q = (n1, n2, n3, n4, n5) \<longrightarrow>
        0 \<le> a \<and> a < int n1 \<and> 0 \<le> b \<and> b < int n2 \<and> 0 \<le> c \<and> c < int n3
          \<and> 0 \<le> d \<and> d < int n4 \<longrightarrow> 0 < n5 \<longrightarrow>
        (\<exists>k. select_action is_training epsilon u sampled q (a, b, c, d) = Inr (int k)
              \<and> k < n5
              \<and> (\<forall>j < n5. q_cells q (nat a, nat b, nat c, nat d, j)
                             \<le> q_cells q (nat a, nat b, nat c, nat d, k))
              \<and> (\<forall>j < k. q_cells q (nat a, nat b, nat c, nat d, j)
                            < q_cells q (nat a, nat b, nat c, nat d, k))))
   \<and> select_action False epsilon u sampled q state
       = select_action False epsilon' u' sampled' q state
   \<and> (0 \<le> u \<longrightarrow> select_action is_training 0 u sampled q state
                    = select_action False epsilon' u' sampled' q state)
   \<and> \<not> explores False epsilon u
   \<and> (0 \<le> u \<longrightarrow> \<not> explores is_training 0 u)
   \<and> {v. 0 \<le> v \<and> v < 1 \<and> explores True epsilon v} = {0..<min epsilon 1}"
proof -
  have greedy: "\<exists>k. select_action is_training epsilon u sampled q (a, b, c, d) = Inr (int k)
              \<and> k < n5
              \<and> (\<forall>j < n5. q_cells q (nat a, nat b, nat c, nat d, j)
                             \<le> q_cells q (nat a, nat b, nat c, nat d, k))
              \<and> (\<forall>j < k. q_cells q (nat a, nat b, nat c, nat d, j)
                            < q_cells q (nat a, nat b, nat c, nat d, k))"
    if ne: "\<not> explores is_training epsilon u" and sh: "q_shape q = (n1, n2, n3, n4, n5)"
      and ix: "0 \<le> a" "a < int n1" "0 \<le> b" "b < int n2" "0 \<le> c" "c < int n3"
              "0 \<le> d" "d < int n4"
      and n5: "0 < n5"
  proof -
    let ?f = "\<lambda>k. q_cells q (nat a, nat b, nat c, nat d, k)"
    let ?row = "map ?f [0..<n5]"
    have row: "q_row q (a, b, c, d) = Inr ?row" by (rule q_row_ok [OF sh ix])
    have "?row \<noteq> []" using n5 by simp
    from np_argmax_first [OF this] obtain k where
      k: "np_argmax ?row = Inr k" "is_first_argmax ?row k" by blast
    from k(2) have kn: "k < n5" by (simp add: is_first_argmax_def)
    from k(2) have le: "\<forall>j < n5. ?f j \<le> ?f k"
      using kn by (simp add: is_first_argmax_def)
    from k(2) have lt: "\<forall>j < k. ?f j < ?f k"
      using kn by (simp add: is_first_argmax_def)
    have "select_action is_training epsilon u sampled q (a, b, c, d) = Inr (int k)"
      using ne row k(1) by (simp add: select_action_def)
    with kn le lt show ?thesis by blast
  qed
  have drawn: "{v. 0 \<le> v \<and> v < 1 \<and> explores True epsilon v} = {0..<min epsilon 1}"
    by (auto simp: explores_def)
  have rest: "(u < epsilon \<longrightarrow> select_action True epsilon u sampled q state = Inr sampled)
     \<and> select_action False epsilon u sampled q state
         = select_action False epsilon' u' sampled' q state
     \<and> (0 \<le> u \<longrightarrow> select_action is_training 0 u sampled q state
                    = select_action False epsilon' u' sampled' q state)
     \<and> \<not> explores False epsilon u
     \<and> (0 \<le> u \<longrightarrow> \<not> explores is_training 0 u)"
    by (simp add: select_action_def explores_def)
  from greedy drawn rest show ?thesis by blast
qed

theorem C4_epsilon_greedy_witness:
  "\<not> explores False 1 (1 / 4) \<and> \<not> explores True 0 (1 / 4)
   \<and> q_shape q_rows = (4, 5, 4, 5, 4)
   \<and> q_row q_rows (0, 0, 2, 3) = Inr [0, 1 / 2, 1 / 2, 0]
   \<and> q_row q_rows (0, 1, 2, 3) = Inr [0, 0, 0, 1]
   \<and> select_action True 1 (1 / 4) 0 q_rows (0, 0, 2, 3) = Inr 0
   \<and> select_action True 0 (1 / 4) 0 q_rows (0, 0, 2, 3) = Inr 1
   \<and> select_action False 1 (1 / 4) 0 q_rows (0, 0, 2, 3) = Inr 1
   \<and> select_action False 1 (1 / 4) 0 q_rows (0, 1, 2, 3) = Inr 3"
proof -
  have sh: "q_shape q_rows = (4, 5, 4, 5, 4)" by (simp add: q_rows_def)
  have row1: "q_row q_rows (0, 0, 2, 3) = Inr [0, 1 / 2, 1 / 2, 0]"
    by (simp add: q_row_def q_state_idx_def np_index_def q_rows_def upt_4)
  have row2: "q_row q_rows (0, 1, 2, 3) = Inr [0, 0, 0, 1]"
    by (simp add: q_row_def q_state_idx_def np_index_def q_rows_def upt_4)
  have ex: "\<not> explores False 1 (1 / 4)" "\<not> explores True 0 (1 / 4)"
    by (simp_all add: explores_def)
  have g1: "select_action False 1 (1 / 4) 0 q_rows (0, 0, 2, 3) = Inr 1"
    by (simp add: select_action_def explores_def row1)
  have g2: "select_action False 1 (1 / 4) 0 q_rows (0, 1, 2, 3) = Inr 3"
    by (simp add: select_action_def explores_def row2)
  have g3: "select_action True 0 (1 / 4) 0 q_rows (0, 0, 2, 3) = Inr 1"
    by (simp add: select_action_def explores_def row1)
  have e1: "select_action True 1 (1 / 4) 0 q_rows (0, 0, 2, 3) = Inr 0"
    by (simp add: select_action_def explores_def)
  note inst = C4_epsilon_greedy [of "1 / 4" 1 0 q_rows "(0, 1, 2, 3)" False 4 5 4 5 4 0 1 2 3
      1 "1 / 4" 0]
  show ?thesis
    using sh row1 row2 ex g1 g2 g3 e1 inst by simp
qed

lemma td_value_example: "td_value 0 1 0 = fl (9 / 10)"
  by (simp add: td_value_def fadd_def fsub_def fmul_def learning_rate_a_def discount_factor_g_def
      fl_zero fl_one fl_nine_tenths fl_nine_tenths_idem)

lemma select_action_range:
  assumes "q_shape q = (n1, n2, n3, n4, n5)"
    and "0 \<le> a" "a < int n1" "0 \<le> b" "b < int n2" "0 \<le> c" "c < int n3" "0 \<le> d" "d < int n4"
    and "0 < n5" and "0 \<le> sampled" "sampled < int n5"
  shows "\<exists>action. select_action is_training epsilon u sampled q (a, b, c, d) = Inr action
           \<and> 0 \<le> action \<and> action < int n5"
proof (cases "explores is_training epsilon u")
  case True
  with assms show ?thesis by (simp add: select_action_def)
next
  case False
  let ?row = "map (\<lambda>k. q_cells q (nat a, nat b, nat c, nat d, k)) [0..<n5]"
  have row: "q_row q (a, b, c, d) = Inr ?row" by (rule q_row_ok [OF assms(1-9)])
  have ne: "?row \<noteq> []" using assms(10) by simp
  from np_argmax_first [OF ne] obtain k where k: "np_argmax ?row = Inr k" "is_first_argmax ?row k"
    by blast
  then have "k < n5" by (simp add: is_first_argmax_def)
  with False row k(1) show ?thesis by (auto simp add: select_action_def)
qed

lemma RobotAction_of_range:
  "0 \<le> v \<Longrightarrow> v < 4 \<Longrightarrow> \<exists>a. RobotAction_of v = Inr a"
  by (simp add: RobotAction_of_def)

lemma step_of_action:
  assumes "RobotAction_of action = Inr a"
  shows "step E action
         = Inr \<lparr>obs = observe (snd (perform_action (warehouse_robot E) a)),
                reward = (if fst (perform_action (warehouse_robot E) a) then 1 else 0),
                terminated = fst (perform_action (warehouse_robot E) a),
                truncated = False,
                env_after = E\<lparr>warehouse_robot := snd (perform_action (warehouse_robot E) a)\<rparr>\<rparr>"
  using assms by (simp add: step_def Let_def)

lemma q_update_cells:
  assumes "q_state_action_idx q state action = Inr idx"
    and "q_row q new_state = Inr row" and "row \<noteq> []"
  shows "q_update q state action rew new_state
         = Inr (q\<lparr>q_cells := (q_cells q)(idx := td_value (q_cells q idx) rew (Max (set row)))\<rparr>)"
  using assms by (simp add: q_update_def np_max_Max)

lemma in_grid_index:
  assumes "in_grid R C p"
  shows "0 \<le> fst p \<and> fst p < int (nat R) \<and> 0 \<le> snd p \<and> snd p < int (nat C)"
  using assms by (auto simp: in_grid_def)

lemma loop_body_training:
  assumes inv: "trainer_inv rs" and smp: "0 \<le> sampled" "sampled < 4"
    and i: "i < length (rs_steps_per_episode rs)"
  shows "(\<exists>action res idx row rs'.
            select_action True epsilon u sampled (rs_q rs) (rs_state rs) = Inr action
          \<and> step (rs_env rs) action = Inr res
          \<and> q_state_action_idx (rs_q rs) (rs_state rs) action = Inr idx
          \<and> q_row (rs_q rs) (obs res) = Inr row \<and> row \<noteq> []
          \<and> loop_body True epsilon i (u, sampled) rs = Inr rs'
          \<and> q_cells (rs_q rs') idx
               = td_value (q_cells (rs_q rs) idx) (reward res) (Max (set row))
          \<and> (\<forall>idx'. idx' \<noteq> idx \<longrightarrow> q_cells (rs_q rs') idx' = q_cells (rs_q rs) idx')
          \<and> q_shape (rs_q rs') = q_shape (rs_q rs)
          \<and> trainer_inv rs')
         \<and> td_value 0 1 0 = fl (9 / 10)
         \<and> learning_rate_a = fl (9 / 10) \<and> discount_factor_g = fl (9 / 10)"
proof -
  let ?w = "warehouse_robot (rs_env rs)"
  let ?R = "grid_rows ?w" and ?C = "grid_cols ?w"
  let ?q = "rs_q rs"
  from inv have shape: "q_shape ?q = (nat ?R, nat ?C, nat ?R, nat ?C, 4)"
    and rg: "in_grid ?R ?C (robot_pos ?w)" and tg: "in_grid ?R ?C (target_pos ?w)"
    and st: "rs_state rs = (fst (robot_pos ?w), snd (robot_pos ?w),
                            fst (target_pos ?w), snd (target_pos ?w))"
    by (simp_all add: trainer_inv_def Let_def observe_def)
  note ri = in_grid_index [OF rg] and ti = in_grid_index [OF tg]
  have "\<exists>action. select_action True epsilon u sampled ?q (rs_state rs) = Inr action
          \<and> 0 \<le> action \<and> action < int 4"
    unfolding st using shape ri ti smp
    by (intro select_action_range [where ?n1.0 = "nat ?R" and ?n2.0 = "nat ?C"
          and ?n3.0 = "nat ?R" and ?n4.0 = "nat ?C"]) simp_all
  then obtain action where
    sel: "select_action True epsilon u sampled ?q (rs_state rs) = Inr action"
    and ar: "0 \<le> action" "action < 4" by auto
  from RobotAction_of_range [OF ar] obtain a where a: "RobotAction_of action = Inr a" ..
  let ?w' = "snd (perform_action ?w a)"
  let ?res = "\<lparr>obs = observe ?w',
                reward = (if fst (perform_action ?w a) then 1 else 0),
                terminated = fst (perform_action ?w a),
                truncated = False,
                env_after = (rs_env rs)\<lparr>warehouse_robot := ?w'\<rparr>\<rparr>"
  have stp: "step (rs_env rs) action = Inr ?res" by (rule step_of_action [OF a])
  have rg': "in_grid ?R ?C (robot_pos ?w')" using perform_action_moves [OF rg, of a] by (rule conjunct1)
  have keep: "target_pos ?w' = target_pos ?w" "grid_rows ?w' = ?R" "grid_cols ?w' = ?C"
    using perform_action_keeps [of ?w a] by simp_all
  note ri' = in_grid_index [OF rg']
  let ?idx = "(nat (fst (robot_pos ?w)), nat (snd (robot_pos ?w)),
               nat (fst (target_pos ?w)), nat (snd (target_pos ?w)), nat action)"
  have idx: "q_state_action_idx ?q (rs_state rs) action = Inr ?idx"
    unfolding st using shape ri ti ar
    by (intro q_state_action_idx_ok [where ?n1.0 = "nat ?R" and ?n2.0 = "nat ?C"
          and ?n3.0 = "nat ?R" and ?n4.0 = "nat ?C" and ?n5.0 = 4]) simp_all
  let ?row = "map (\<lambda>k. q_cells ?q (nat (fst (robot_pos ?w')), nat (snd (robot_pos ?w')),
                                   nat (fst (target_pos ?w)), nat (snd (target_pos ?w)), k)) [0..<4]"
  have row: "q_row ?q (obs ?res) = Inr ?row"
    unfolding observe_def keep step_result.simps using shape ri' ti
    by (intro q_row_ok [where ?n1.0 = "nat ?R" and ?n2.0 = "nat ?C"
          and ?n3.0 = "nat ?R" and ?n4.0 = "nat ?C"]) simp_all
  have ne: "?row \<noteq> []" by simp
  let ?q' = "?q\<lparr>q_cells := (q_cells ?q)(?idx := td_value (q_cells ?q ?idx) (reward ?res) (Max (set ?row)))\<rparr>"
  have upd: "q_update ?q (rs_state rs) action (reward ?res) (obs ?res) = Inr ?q'"
    by (rule q_update_cells [OF idx row ne])
  let ?rs1 = "rs\<lparr>rs_env := env_after ?res, rs_q := ?q', rs_state := obs ?res,
                 rs_terminated := terminated ?res, rs_step_count := rs_step_count rs + 1\<rparr>"
  let ?rs' = "if terminated ?res
              then ?rs1\<lparr>rs_steps_per_episode :=
                          (rs_steps_per_episode ?rs1)[i := fl (of_nat (rs_step_count ?rs1))],
                        rs_step_count := 0\<rparr>
              else ?rs1"
  have body: "loop_body True epsilon i (u, sampled) rs = Inr ?rs'"
    using i by (simp add: loop_body_def sel stp upd Let_def del: step_result.simps)
  have q': "rs_q ?rs' = ?q'" by simp
  have inv': "trainer_inv ?rs'"
    using shape rg' tg keep by (simp add: trainer_inv_def Let_def)
  have "select_action True epsilon u sampled ?q (rs_state rs) = Inr action
          \<and> step (rs_env rs) action = Inr ?res
          \<and> q_state_action_idx ?q (rs_state rs) action = Inr ?idx
          \<and> q_row ?q (obs ?res) = Inr ?row \<and> ?row \<noteq> []
          \<and> loop_body True epsilon i (u, sampled) rs = Inr ?rs'
          \<and> q_cells (rs_q ?rs') ?idx
               = td_value (q_cells ?q ?idx) (reward ?res) (Max (set ?row))
          \<and> (\<forall>idx'. idx' \<noteq> ?idx \<longrightarrow> q_cells (rs_q ?rs') idx' = q_cells ?q idx')
          \<and> q_shape (rs_q ?rs') = q_shape ?q
          \<and> trainer_inv ?rs'"
    using sel stp idx row ne body inv' unfolding q' by simp
  then have "\<exists>action res idx row rs'.
            select_action True epsilon u sampled (rs_q rs) (rs_state rs) = Inr action
          \<and> step (rs_env rs) action = Inr res
          \<and> q_state_action_idx (rs_q rs) (rs_state rs) action = Inr idx
          \<and> q_row (rs_q rs) (obs res) = Inr row \<and> row \<noteq> []
          \<and> loop_body True epsilon i (u, sampled) rs = Inr rs'
          \<and> q_cells (rs_q rs') idx
               = td_value (q_cells (rs_q rs) idx) (reward res) (Max (set row))
          \<and> (\<forall>idx'. idx' \<noteq> idx \<longrightarrow> q_cells (rs_q rs') idx' = q_cells (rs_q rs) idx')
          \<and> q_shape (rs_q rs') = q_shape (rs_q rs)
          \<and> trainer_inv rs'"
    by blast
  then show ?thesis
    by (simp add: td_value_example learning_rate_a_def discount_factor_g_def)
qed

lemma bind_err_Inr: "(bind_err m f = Inr y) = (\<exists>x. m = Inr x \<and> f x = Inr y)"
  by (cases m) auto

lemma loop_body_state:
  assumes "loop_body is_training epsilon i draw rs = Inr rs'"
    and "select_action is_training epsilon (fst draw) (snd draw) (rs_q rs) (rs_state rs) = Inr action"
    and "step (rs_env rs) action = Inr res"
  shows "rs_state rs' = obs res \<and> rs_env rs' = env_after res
         \<and> rs_terminated rs' = terminated res"
  using assms
  by (auto simp: loop_body_def bind_err_Inr Let_def split: if_splits)

lemma Max_row_image:
  "Max (set (map f [0..<4])) = Max (f ` {0..<4::nat})"
  by simp

text \<open>
  Claim C3. In a training run every pass through the loop body succeeds and rewrites
  exactly one cell of the Q-table, the one of the old state \<open>(a, b, c, d)\<close> and the chosen
  action, to \<open>Q + \<alpha> (reward + \<gamma> max Q' - Q)\<close> with \<open>\<alpha> = \<gamma> = 0.9\<close>, every operation rounded
  to binary64, where \<open>Q\<close> is the old value of that cell, \<open>reward\<close> the reward of the step
  and \<open>max Q'\<close> the largest of the four action values of the new state \<open>(a', b', c', d')\<close>
  in the table before the update. Every other cell and the shape are unchanged, and the
  state reached is again a state of a training run. For \<open>Q = 0\<close>, reward 1 and
  \<open>max Q' = 0\<close> the value written is the binary64 number \<open>0.9\<close>.
\<close>

theorem C3_td_update:
  assumes inv: "trainer_inv rs" and smp: "0 \<le> sampled" "sampled < 4"
    and i: "i < length (rs_steps_per_episode rs)"
    and st: "rs_state rs = (a, b, c, d)"
  shows "(\<exists>action res rs' a' b' c' d'.
            select_action True epsilon u sampled (rs_q rs) (rs_state rs) = Inr action
          \<and> 0 \<le> action \<and> action < 4
          \<and> (u < epsilon \<longrightarrow> action = sampled)
          \<and> step (rs_env rs) action = Inr res
          \<and> obs res = (a', b', c', d')
          \<and> loop_body True epsilon i (u, sampled) rs = Inr rs'
          \<and> rs_state rs' = (a', b', c', d')
          \<and> q_cells (rs_q rs') (nat a, nat b, nat c, nat d, nat action)
               = fl (q_cells (rs_q rs) (nat a, nat b, nat c, nat d, nat action)
                     + fl (fl (9 / 10)
                           * fl (fl (of_int (reward res)
                                     + fl (fl (9 / 10)
                                           * Max ((\<lambda>k. q_cells (rs_q rs)
                                                        (nat a', nat b', nat c', nat d', k))
                                                  ` {0..<4})))
                                 - q_cells (rs_q rs) (nat a, nat b, nat c, nat d, nat action))))
          \<and> (\<forall>idx'. idx' \<noteq> (nat a, nat b, nat c, nat d, nat action)
                 \<longrightarrow> q_cells (rs_q rs') idx' = q_cells (rs_q rs) idx')
          \<and> q_shape (rs_q rs') = q_shape (rs_q rs)
          \<and> trainer_inv rs')
         \<and> td_value x r m = fl (x + fl (fl (9 / 10) * fl (fl (of_int r + fl (fl (9 / 10) * m)) - x)))
         \<and> td_value 0 1 0 = fl (9 / 10)
         \<and> fl (9 / 10) = 8106479329266893 / 9007199254740992"
proof -
  let ?q = "rs_q rs"
  let ?w = "warehouse_robot (rs_env rs)"
  let ?R = "grid_rows ?w" and ?C = "grid_cols ?w"
  from loop_body_training [OF inv smp i, of epsilon u] obtain action res idx row rs' where
    sel: "select_action True epsilon u sampled ?q (rs_state rs) = Inr action"
    and stp: "step (rs_env rs) action = Inr res"
    and idx: "q_state_action_idx ?q (rs_state rs) action = Inr idx"
    and row: "q_row ?q (obs res) = Inr row"
    and body: "loop_body True epsilon i (u, sampled) rs = Inr rs'"
    and cell: "q_cells (rs_q rs') idx = td_value (q_cells ?q idx) (reward res) (Max (set row))"
    and frame: "\<forall>idx'. idx' \<noteq> idx \<longrightarrow> q_cells (rs_q rs') idx' = q_cells ?q idx'"
    and shape': "q_shape (rs_q rs') = q_shape ?q"
    and inv': "trainer_inv rs'"
    by blast
  from inv have shape: "q_shape ?q = (nat ?R, nat ?C, nat ?R, nat ?C, 4)"
    and rg: "in_grid ?R ?C (robot_pos ?w)" and tg: "in_grid ?R ?C (target_pos ?w)"
    and obs0: "rs_state rs = (fst (robot_pos ?w), snd (robot_pos ?w),
                              fst (target_pos ?w), snd (target_pos ?w))"
    by (simp_all add: trainer_inv_def Let_def observe_def)
  have "(a, b, c, d) = (fst (robot_pos ?w), snd (robot_pos ?w),
                        fst (target_pos ?w), snd (target_pos ?w))"
    by (rule trans [OF st [symmetric] obs0])
  then have abcd: "a = fst (robot_pos ?w)" "b = snd (robot_pos ?w)"
      "c = fst (target_pos ?w)" "d = snd (target_pos ?w)"
    unfolding prod.inject by blast+
  note ri = in_grid_index [OF rg] and ti = in_grid_index [OF tg]
  have ix: "0 \<le> a" "a < int (nat ?R)" "0 \<le> b" "b < int (nat ?C)"
           "0 \<le> c" "c < int (nat ?R)" "0 \<le> d" "d < int (nat ?C)"
    using ri ti by (simp_all add: abcd)
  from select_action_range [OF shape ix, of sampled True epsilon u] smp sel st
  have ar: "0 \<le> action" "action < 4" by auto
  have ex: "u < epsilon \<longrightarrow> action = sampled"
    using sel by (auto simp add: select_action_def explores_def)
  have "q_state_action_idx ?q (a, b, c, d) action = Inr (nat a, nat b, nat c, nat d, nat action)"
    using ar by (intro q_state_action_idx_ok [OF shape ix]) simp_all
  with idx st have idx_eq: "idx = (nat a, nat b, nat c, nat d, nat action)" by simp
  from loop_body_state [OF body] sel stp have st': "rs_state rs' = obs res" by simp
  obtain a' b' c' d' where o: "obs res = (a', b', c', d')" by (cases "obs res") auto
  let ?w' = "warehouse_robot (rs_env rs')"
  from inv' have shape2: "q_shape (rs_q rs')
        = (nat (grid_rows ?w'), nat (grid_cols ?w'), nat (grid_rows ?w'), nat (grid_cols ?w'), 4)"
    and rg': "in_grid (grid_rows ?w') (grid_cols ?w') (robot_pos ?w')"
    and tg': "in_grid (grid_rows ?w') (grid_cols ?w') (target_pos ?w')"
    and obs1: "rs_state rs' = (fst (robot_pos ?w'), snd (robot_pos ?w'),
                               fst (target_pos ?w'), snd (target_pos ?w'))"
    by (simp_all add: trainer_inv_def Let_def observe_def)
  have "(a', b', c', d') = (fst (robot_pos ?w'), snd (robot_pos ?w'),
                            fst (target_pos ?w'), snd (target_pos ?w'))"
    by (rule trans [OF trans [OF o [symmetric] st' [symmetric]] obs1])
  then have abcd': "a' = fst (robot_pos ?w')" "b' = snd (robot_pos ?w')"
      "c' = fst (target_pos ?w')" "d' = snd (target_pos ?w')"
    unfolding prod.inject by blast+
  note ri' = in_grid_index [OF rg'] and ti' = in_grid_index [OF tg']
  have ix': "0 \<le> a'" "a' < int (nat (grid_rows ?w'))" "0 \<le> b'" "b' < int (nat (grid_cols ?w'))"
            "0 \<le> c'" "c' < int (nat (grid_rows ?w'))" "0 \<le> d'" "d' < int (nat (grid_cols ?w'))"
    using ri' ti' by (simp_all add: abcd')
  have shape3: "q_shape ?q
        = (nat (grid_rows ?w'), nat (grid_cols ?w'), nat (grid_rows ?w'), nat (grid_cols ?w'), 4)"
    using shape2 shape' by simp
  have "q_row ?q (a', b', c', d')
        = Inr (map (\<lambda>k. q_cells ?q (nat a', nat b', nat c', nat d', k)) [0..<4])"
    by (rule q_row_ok [OF shape3 ix'])
  with row o have row_eq: "row = map (\<lambda>k. q_cells ?q (nat a', nat b', nat c', nat d', k)) [0..<4]"
    by simp
  have mx: "Max (set row) = Max ((\<lambda>k. q_cells ?q (nat a', nat b', nat c', nat d', k)) ` {0..<4})"
    unfolding row_eq by (rule Max_row_image)
  have td: "td_value x r m
            = fl (x + fl (fl (9 / 10) * fl (fl (of_int r + fl (fl (9 / 10) * m)) - x)))"
    for x r m
    by (simp add: td_value_def fadd_def fsub_def fmul_def learning_rate_a_def
        discount_factor_g_def)
  have cell': "q_cells (rs_q rs') (nat a, nat b, nat c, nat d, nat action)
               = fl (q_cells ?q (nat a, nat b, nat c, nat d, nat action)
                     + fl (fl (9 / 10)
                           * fl (fl (of_int (reward res)
                                     + fl (fl (9 / 10)
                                           * Max ((\<lambda>k. q_cells ?q
                                                        (nat a', nat b', nat c', nat d', k))
                                                  ` {0..<4})))
                                 - q_cells ?q (nat a, nat b, nat c, nat d, nat action))))"
    using cell unfolding idx_eq mx td .
  have frame': "\<forall>idx'. idx' \<noteq> (nat a, nat b, nat c, nat d, nat action)
                 \<longrightarrow> q_cells (rs_q rs') idx' = q_cells ?q idx'"
    using frame unfolding idx_eq .
  have st'': "rs_state rs' = (a', b', c', d')" using st' o by simp
  have main: "\<exists>action res rs' a' b' c' d'.
            select_action True epsilon u sampled (rs_q rs) (rs_state rs) = Inr action
          \<and> 0 \<le> action \<and> action < 4
          \<and> (u < epsilon \<longrightarrow> action = sampled)
          \<and> step (rs_env rs) action = Inr res
          \<and> obs res = (a', b', c', d')
          \<and> loop_body True epsilon i (u, sampled) rs = Inr rs'
          \<and> rs_state rs' = (a', b', c', d')
          \<and> q_cells (rs_q rs') (nat a, nat b, nat c, nat d, nat action)
               = fl (q_cells (rs_q rs) (nat a, nat b, nat c, nat d, nat action)
                     + fl (fl (9 / 10)
                           * fl (fl (of_int (reward res)
                                     + fl (fl (9 / 10)
                                           * Max ((\<lambda>k. q_cells (rs_q rs)
                                                        (nat a', nat b', nat c', nat d', k))
                                                  ` {0..<4})))
                                 - q_cells (rs_q rs) (nat a, nat b, nat c, nat d, nat action))))
          \<and> (\<forall>idx'. idx' \<noteq> (nat a, nat b, nat c, nat d, nat action)
                 \<longrightarrow> q_cells (rs_q rs') idx' = q_cells (rs_q rs) idx')
          \<and> q_shape (rs_q rs') = q_shape (rs_q rs)
          \<and> trainer_inv rs'"
    using sel ar ex stp o body st'' cell' frame' shape' inv' by blast
  from main td [of x r m] td_value_example fl_nine_tenths show ?thesis by blast
qed

lemma td_mid_1:
  "fl (8106479329266893 / 9007199254740992 * (1 / 4)) = 8106479329266893 / 36028797018963968"
  by code_simp

lemma td_mid_2:
  "fl (of_int 0 + 8106479329266893 / 36028797018963968) = 8106479329266893 / 36028797018963968"
  by code_simp

lemma td_mid_3:
  "fl (8106479329266893 / 36028797018963968 - 1 / 2) = - 2476979795053773 / 9007199254740992"
  by code_simp

lemma td_mid_4:
  "fl (8106479329266893 / 9007199254740992 * (- 2476979795053773 / 9007199254740992))
   = - 8917127262193583 / 36028797018963968"
  by code_simp

lemma td_mid_5:
  "fl (1 / 2 + - 8917127262193583 / 36028797018963968) = 568579452955525 / 2251799813685248"
  by code_simp

lemma td_value_mid: "td_value (1 / 2) 0 (1 / 4) = 568579452955525 / 2251799813685248"
  unfolding td_value_def fadd_def fsub_def fmul_def learning_rate_a_def discount_factor_g_def
  by (simp only: fl_nine_tenths td_mid_1 td_mid_2 td_mid_3 td_mid_4 td_mid_5)

theorem C3_td_update_witness:
  "trainer_inv mid_run \<and> (0::int) \<le> 2 \<and> (2::int) < 4
   \<and> 0 < length (rs_steps_per_episode mid_run)
   \<and> rs_state mid_run = (1, 1, 2, 3)
   \<and> q_cells (rs_q mid_run) (1, 1, 2, 3, 2) = 1 / 2
   \<and> Max ((\<lambda>k. q_cells (rs_q mid_run) (1, 2, 2, 3, k)) ` {0..<4}) = 1 / 4
   \<and> (\<exists>rs'. loop_body True 1 0 (0, 2) mid_run = Inr rs'
         \<and> rs_state rs' = (1, 2, 2, 3) \<and> \<not> rs_terminated rs'
         \<and> q_cells (rs_q rs') (1, 1, 2, 3, 2) = 568579452955525 / 2251799813685248
         \<and> q_cells (rs_q rs') (1, 2, 2, 3, 1) = 1 / 4
         \<and> q_cells (rs_q rs') (1, 1, 2, 3, 1) = 0)
   \<and> trainer_inv near_goal
   \<and> (\<exists>rs'. loop_body True 1 0 (0, 2) near_goal = Inr rs'
         \<and> rs_state rs' = (2, 3, 2, 3) \<and> rs_terminated rs'
         \<and> q_cells (rs_q rs') (2, 2, 2, 3, 2) = 8106479329266893 / 9007199254740992
         \<and> q_cells (rs_q rs') (2, 2, 2, 3, 1) = 0
         \<and> rs_steps_per_episode rs' = [7] \<and> rs_step_count rs' = 0)"
proof -
  have inv: "trainer_inv mid_run"
    by (simp add: trainer_inv_def mid_run_def q_mid_def in_grid_def observe_def)
  have len: "0 < length (rs_steps_per_episode mid_run)"
    by (simp add: mid_run_def)
  have st: "rs_state mid_run = (1, 1, 2, 3)" by (simp add: mid_run_def)
  have q0: "q_cells (rs_q mid_run) (1, 1, 2, 3, 2) = 1 / 2"
    by (simp add: mid_run_def q_mid_def)
  have img: "(\<lambda>k. q_cells (rs_q mid_run) (1, 2, 2, 3, k)) ` {0..<4} = {0, 1 / 4}"
  proof -
    have "{0..<4::nat} = {0, 1, 2, 3}" by auto
    then show ?thesis by (auto simp: mid_run_def q_mid_def)
  qed
  have mx: "Max ((\<lambda>k. q_cells (rs_q mid_run) (1, 2, 2, 3, k)) ` {0..<4}) = 1 / 4"
    unfolding img by simp
  have sel: "select_action True 1 0 2 (rs_q mid_run) (rs_state mid_run) = Inr 2"
    by (simp add: select_action_def explores_def)
  have stp: "step (rs_env mid_run) 2
             = Inr \<lparr>obs = (1, 2, 2, 3), reward = 0, terminated = False, truncated = False,
                    env_after = (rs_env mid_run)\<lparr>warehouse_robot :=
                      (warehouse_robot (rs_env mid_run))\<lparr>robot_pos := (1, 2),
                         last_action := Some RIGHT\<rparr>\<rparr>\<rparr>"
    by (simp add: step_def RobotAction_of_def perform_action_def observe_def mid_run_def Let_def)
  have row: "q_row (rs_q mid_run) (1, 2, 2, 3) = Inr [0, 1 / 4, 0, 0]"
    by (simp add: q_row_def q_state_idx_def np_index_def mid_run_def q_mid_def upt_4)
  have idx: "q_state_action_idx (rs_q mid_run) (rs_state mid_run) 2 = Inr (1, 1, 2, 3, 2)"
    by (simp add: q_state_action_idx_def q_state_idx_def np_index_def mid_run_def q_mid_def)
  have upd: "q_update (rs_q mid_run) (rs_state mid_run) 2 0 (1, 2, 2, 3)
             = Inr ((rs_q mid_run)\<lparr>q_cells := (q_cells (rs_q mid_run))
                      ((1, 1, 2, 3, 2) := 568579452955525 / 2251799813685248)\<rparr>)"
  proof -
    have c: "q_cells (rs_q mid_run) (Suc 0, Suc 0, 2, 3, 2) = 1 / 2"
      by (simp add: mid_run_def q_mid_def)
    show ?thesis by (simp add: q_update_def idx row c td_value_mid)
  qed
  have body: "\<exists>rs'. loop_body True 1 0 (0, 2) mid_run = Inr rs'
         \<and> rs_state rs' = (1, 2, 2, 3) \<and> \<not> rs_terminated rs'
         \<and> q_cells (rs_q rs') (1, 1, 2, 3, 2) = 568579452955525 / 2251799813685248
         \<and> q_cells (rs_q rs') (1, 2, 2, 3, 1) = 1 / 4
         \<and> q_cells (rs_q rs') (1, 1, 2, 3, 1) = 0"
    by (simp add: loop_body_def sel stp upd Let_def)
       (simp add: mid_run_def q_mid_def)
  have inv2: "trainer_inv near_goal"
    by (simp add: trainer_inv_def near_goal_def np_zeros_def in_grid_def observe_def)
  have len2: "0 < length (rs_steps_per_episode near_goal)"
    by (simp add: near_goal_def)
  have st2: "rs_state near_goal = (2, 2, 2, 3)" by (simp add: near_goal_def)
  have seven: "fl 7 = 7" by code_simp
  have sel2: "select_action True 1 0 2 (rs_q near_goal) (rs_state near_goal) = Inr 2"
    by (simp add: select_action_def explores_def)
  have stp2: "step (rs_env near_goal) 2
             = Inr \<lparr>obs = (2, 3, 2, 3), reward = 1, terminated = True, truncated = False,
                    env_after = (rs_env near_goal)\<lparr>warehouse_robot :=
                      (warehouse_robot (rs_env near_goal))\<lparr>robot_pos := (2, 3),
                         last_action := Some RIGHT\<rparr>\<rparr>\<rparr>"
    by (simp add: step_def RobotAction_of_def perform_action_def observe_def near_goal_def Let_def)
  have upd2: "q_update (rs_q near_goal) (rs_state near_goal) 2 1 (2, 3, 2, 3)
             = Inr ((rs_q near_goal)\<lparr>q_cells := (q_cells (rs_q near_goal))
                      ((2, 2, 2, 3, 2) := 8106479329266893 / 9007199254740992)\<rparr>)"
    by (simp add: q_update_def q_state_action_idx_def q_state_idx_def q_row_def np_index_def
        near_goal_def np_zeros_def upt_4 td_value_example fl_nine_tenths)
  have body2: "\<exists>rs'. loop_body True 1 0 (0, 2) near_goal = Inr rs'
         \<and> rs_state rs' = (2, 3, 2, 3) \<and> rs_terminated rs'
         \<and> q_cells (rs_q rs') (2, 2, 2, 3, 2) = 8106479329266893 / 9007199254740992
         \<and> q_cells (rs_q rs') (2, 2, 2, 3, 1) = 0
         \<and> rs_steps_per_episode rs' = [7] \<and> rs_step_count rs' = 0"
    using len2
    by (simp add: loop_body_def sel2 stp2 upd2 Let_def seven)
       (simp add: near_goal_def np_zeros_def seven)
  note i1 = C3_td_update [OF inv _ _ len st, of 2 1 0]
    and i2 = C3_td_update [OF inv2 _ _ len2 st2, of 2 1 0]
  show ?thesis
    using inv len st q0 mx body inv2 body2 i1 i2 by simp
qed

section \<open>Training runs raise no exception\<close>

text \<open>
  The hypotheses of the update step hold at every pass of a training run: \<open>reset\<close>
  establishes them, the loop body keeps them, and so no lookup, step or division of a
  training run fails.
\<close>

lemma loop_body_length:
  assumes "loop_body is_training epsilon i draw rs = Inr rs'"
  shows "length (rs_steps_per_episode rs') = length (rs_steps_per_episode rs)"
  using assms
  by (auto simp: loop_body_def bind_err_Inr Let_def split: if_splits)

lemma env_reset_inv:
  assumes "run_inv n rs"
  shows "\<exists>state E g'. env_reset R None entropy (rs_env rs, g) = Inr (state, E, g')
           \<and> trainer_inv (rs\<lparr>rs_env := E, rs_state := state, rs_terminated := False\<rparr>)
           \<and> run_inv n (rs\<lparr>rs_env := E, rs_state := state, rs_terminated := False\<rparr>)"
proof -
  let ?w = "warehouse_robot (rs_env rs)"
  from assms have r: "2 \<le> grid_rows ?w" and c: "2 \<le> grid_cols ?w"
    and sh: "q_shape (rs_q rs)
              = (nat (grid_rows ?w), nat (grid_cols ?w), nat (grid_rows ?w), nat (grid_cols ?w), 4)"
    and len: "length (rs_steps_per_episode rs) = n"
    by (simp_all add: run_inv_def Let_def)
  from reset_succeeds [OF r c, of R None entropy g] obtain w' g' where
    w': "reset R None entropy (?w, g) = Inr (w', g')" "robot_pos w' = (0, 0)"
        "1 \<le> fst (target_pos w')" "fst (target_pos w') \<le> grid_rows ?w - 1"
        "1 \<le> snd (target_pos w')" "snd (target_pos w') \<le> grid_cols ?w - 1"
        "grid_rows w' = grid_rows ?w" "grid_cols w' = grid_cols ?w"
    by blast
  have "env_reset R None entropy (rs_env rs, g)
        = Inr (observe w', (rs_env rs)\<lparr>warehouse_robot := w'\<rparr>, g')"
    using w'(1) by (simp add: env_reset_def)
  moreover have "trainer_inv (rs\<lparr>rs_env := (rs_env rs)\<lparr>warehouse_robot := w'\<rparr>,
                                 rs_state := observe w', rs_terminated := False\<rparr>)"
    using w' r c sh by (simp add: trainer_inv_def in_grid_def Let_def)
  moreover have "run_inv n (rs\<lparr>rs_env := (rs_env rs)\<lparr>warehouse_robot := w'\<rparr>,
                                 rs_state := observe w', rs_terminated := False\<rparr>)"
    using w' r c sh len by (simp add: run_inv_def Let_def)
  ultimately show ?thesis by blast
qed

lemma trainer_inv_dims:
  assumes "trainer_inv rs" and "trainer_inv rs'" and "q_shape (rs_q rs') = q_shape (rs_q rs)"
  shows "grid_rows (warehouse_robot (rs_env rs')) = grid_rows (warehouse_robot (rs_env rs))
         \<and> grid_cols (warehouse_robot (rs_env rs')) = grid_cols (warehouse_robot (rs_env rs))"
  using assms by (auto simp: trainer_inv_def in_grid_def Let_def)

lemma loop_body_run_inv:
  assumes "trainer_inv rs" and "run_inv n rs" and "0 \<le> sampled" "sampled < 4" and "i < n"
  shows "\<exists>rs'. loop_body True epsilon i (u, sampled) rs = Inr rs'
               \<and> trainer_inv rs' \<and> run_inv n rs'"
proof -
  from assms(2) have len: "length (rs_steps_per_episode rs) = n"
    by (simp add: run_inv_def Let_def)
  with assms(5) have i: "i < length (rs_steps_per_episode rs)" by simp
  from loop_body_training [OF assms(1,3,4) i, of epsilon u] obtain rs' where
    b: "loop_body True epsilon i (u, sampled) rs = Inr rs'"
    and inv': "trainer_inv rs'" and sh: "q_shape (rs_q rs') = q_shape (rs_q rs)"
    by blast
  from trainer_inv_dims [OF assms(1) inv' sh] loop_body_length [OF b] assms(2) len sh
  have "run_inv n rs'" by (simp add: run_inv_def Let_def)
  with b inv' show ?thesis by blast
qed

lemma episode_loop_training:
  assumes draws: "\<forall>k. 0 \<le> snd (draws k) \<and> snd (draws k) < 4" and i: "i < n"
  shows "trainer_inv rs \<Longrightarrow> run_inv n rs \<Longrightarrow>
         episode_loop fuel True epsilon i draws k rs = Some r \<Longrightarrow>
         \<exists>rs'. r = Inr rs' \<and> trainer_inv rs' \<and> run_inv n rs'"
proof (induction fuel arbitrary: k rs)
  case 0
  then show ?case by (auto split: if_splits)
next
  case (Suc fuel)
  show ?case
  proof (cases "rs_terminated rs")
    case True
    with Suc.prems show ?thesis by auto
  next
    case False
    from draws have d: "0 \<le> snd (draws k)" "snd (draws k) < 4" by simp_all
    from loop_body_run_inv [OF Suc.prems(1,2) d i, of epsilon "fst (draws k)"]
    obtain rs1 where b: "loop_body True epsilon i (draws k) rs = Inr rs1"
      and inv1: "trainer_inv rs1" "run_inv n rs1" by auto
    from Suc.prems(3) False b
    have "episode_loop fuel True epsilon i draws (Suc k) rs1 = Some r" by simp
    from Suc.IH [OF inv1 this] show ?thesis .
  qed
qed

lemma episodes_loop_training:
  assumes draws: "\<forall>i k. 0 \<le> snd (draws i k) \<and> snd (draws i k) < 4"
  shows "run_inv (nat episodes) rs \<Longrightarrow> \<forall>i \<in> set todo. i < nat episodes \<Longrightarrow>
         episodes_loop R fuel True episodes entropy draws todo (epsilon, g, rs) \<noteq> Some (Inl e)"
proof (induction todo arbitrary: epsilon g rs)
  case Nil
  then show ?case by simp
next
  case (Cons i rest)
  from Cons.prems(2) have i: "i < nat episodes" and rest: "\<forall>j \<in> set rest. j < nat episodes"
    by simp_all
  then have ne: "episodes \<noteq> 0" by auto
  from env_reset_inv [OF Cons.prems(1), of R "entropy i" g] obtain state E g' where
    r: "env_reset R None (entropy i) (rs_env rs, g) = Inr (state, E, g')"
    and inv: "trainer_inv (rs\<lparr>rs_env := E, rs_state := state, rs_terminated := False\<rparr>)"
             "run_inv (nat episodes) (rs\<lparr>rs_env := E, rs_state := state, rs_terminated := False\<rparr>)"
    by blast
  let ?rs0 = "rs\<lparr>rs_env := E, rs_state := state, rs_terminated := False\<rparr>"
  from draws have di: "\<forall>k. 0 \<le> snd (draws i k) \<and> snd (draws i k) < 4" by simp
  obtain d where d: "epsilon_decay episodes epsilon = Inr d"
    using ne by (simp add: epsilon_decay_def py_truediv_def)
  show ?case
  proof (cases "episode_loop fuel True epsilon i (draws i) 0 ?rs0")
    case None
    with r show ?thesis by simp
  next
    case (Some res)
    from episode_loop_training [OF di i inv Some] obtain rs' where
      rs': "res = Inr rs'" "run_inv (nat episodes) rs'" by blast
    from Cons.IH [OF rs'(2) rest, of d g'] r Some rs'(1) d show ?thesis by simp
  qed
qed

lemma gym_make_ok:
  "\<exists>E g'. gym_make R mode entropy g = Inr (E, g')
     \<and> env_grid_rows E = 4 \<and> env_grid_cols E = 5
     \<and> grid_rows (warehouse_robot E) = 4 \<and> grid_cols (warehouse_robot E) = 5"
proof -
  let ?w0 = "\<lparr>grid_rows = 4, grid_cols = 5, robot_pos = (0, 0), target_pos = (0, 0),
              last_action = None\<rparr>"
  have "2 \<le> grid_rows ?w0" "2 \<le> grid_cols ?w0" by simp_all
  from reset_succeeds [OF this, of R None entropy g] obtain w g' where
    "reset R None entropy (?w0, g) = Inr (w, g')" "grid_rows w = 4" "grid_cols w = 5"
    by auto
  then show ?thesis
    by (simp add: gym_make_def WarehouseRobotEnv_init_def WarehouseRobot_init_def)
qed

lemma run_q_training_never_raises:
  assumes "\<forall>i k. 0 \<le> snd (draws i k) \<and> snd (draws i k) < 4" and "0 \<le> episodes"
  shows "run_q R fuel entropy0 entropy draws g loaded episodes True render \<noteq> Some (Inl e)"
proof -
  from gym_make_ok [of R "if render then Some ''human'' else None" entropy0 g]
  obtain E g0 where
    E: "gym_make R (if render then Some ''human'' else None) entropy0 g = Inr (E, g0)"
       "env_grid_rows E = 4" "env_grid_cols E = 5"
       "grid_rows (warehouse_robot E) = 4" "grid_cols (warehouse_robot E) = 5"
    by blast
  let ?rs0 = "\<lparr>rs_env = E, rs_q = np_zeros (4, 5, 4, 5, 4),
               rs_state = observe (warehouse_robot E), rs_terminated = False,
               rs_step_count = 0, rs_steps_per_episode = replicate (nat episodes) 0\<rparr>"
  have inv: "run_inv (nat episodes) ?rs0"
    using E by (simp add: run_inv_def np_zeros_def Let_def)
  have todo: "\<forall>i \<in> set [0..<nat episodes]. i < nat episodes" by simp
  have "episodes_loop R fuel True episodes entropy draws [0..<nat episodes] (1, g0, ?rs0)
        \<noteq> Some (Inl e)"
    by (rule episodes_loop_training [OF assms(1) inv todo])
  then show ?thesis
    using assms(2) E
    by (auto simp: run_q_def Let_def split: option.splits sum.splits prod.splits
        simp del: episodes_loop.simps)
qed

section \<open>The exploration schedule\<close>

lemma decay_exact_linear:
  assumes "k \<le> N"
  shows "(decay_exact (int N) ^^ k) 1 = 1 - of_nat k / of_nat N"
  using assms
proof (induction k)
  case 0
  then show ?case by simp
next
  case (Suc k)
  then have IH: "(decay_exact (int N) ^^ k) 1 = 1 - of_nat k / of_nat N" by simp
  have N: "(0::rat) < of_nat N" using Suc.prems by simp
  have split: "(of_nat (Suc k) :: rat) / of_nat N = of_nat k / of_nat N + 1 / of_nat N"
    by (simp add: add_divide_distrib)
  have "(of_nat (Suc k) :: rat) / of_nat N \<le> 1"
    using Suc.prems N by (simp add: divide_le_eq_1)
  then have nonneg: "(0::rat) \<le> 1 - of_nat k / of_nat N - 1 / of_nat N"
    unfolding split by linarith
  have "(decay_exact (int N) ^^ Suc k) 1 = decay_exact (int N) (1 - of_nat k / of_nat N)"
    by (simp add: IH)
  also have "\<dots> = max (1 - of_nat k / of_nat N - 1 / of_nat N) 0"
    by (simp add: decay_exact_def)
  also have "\<dots> = 1 - of_nat k / of_nat N - 1 / of_nat N"
    using nonneg by (rule max_absorb1)
  also have "\<dots> = 1 - of_nat (Suc k) / of_nat N"
    unfolding split by simp
  finally show ?case .
qed

lemma epsilon_decay_step:
  assumes N: "1 \<le> N" "N \<le> 2 ^ 53" and eps: "0 \<le> epsilon" "epsilon \<le> 1"
  shows "\<exists>e. epsilon_decay (int N) epsilon = Inr e \<and> 0 \<le> e
           \<and> e \<le> max 0 (epsilon - 1 / of_nat N + 1 / 2 ^ 53)"
proof -
  define d where "d = fl (1 / of_nat N)"
  define a :: rat where "a = 1 / of_nat N"
  define t :: rat where "t = 1 / 2 ^ 54"
  have t2: "(1::rat) / 2 ^ 53 = t + t" by (simp add: t_def)
  have t0: "0 \<le> t" by (simp add: t_def)
  have a1: "a \<le> 1" and a0: "0 < a"
    using N(1) by (simp_all add: a_def divide_le_eq_1)
  have big: "t + t \<le> a"
  proof -
    have "(of_nat N :: rat) \<le> of_nat (2 ^ 53)" using N(2) by (rule of_nat_mono)
    then have "(of_nat N :: rat) \<le> 2 ^ 53" by simp
    then have "(1::rat) / 2 ^ 53 \<le> 1 / of_nat N" using N(1) by (intro divide_left_mono) simp_all
    then show ?thesis unfolding t2 a_def .
  qed
  have derr: "\<bar>d - a\<bar> \<le> t"
    unfolding d_def a_def [symmetric] t_def using a1 a0 by (intro fl_error_unit) simp
  have d0: "0 \<le> d" using derr big t0 by linarith
  have d1: "d \<le> 1"
  proof (cases "N = 1")
    case True
    have "fl 1 = 1" by code_simp
    with True show ?thesis by (simp add: d_def)
  next
    case False
    with N(1) have "2 \<le> N" by simp
    then have "(of_nat 2 :: rat) \<le> of_nat N" by (rule of_nat_mono)
    then have "(2::rat) \<le> of_nat N" by simp
    then have "(1::rat) / of_nat N \<le> 1 / 2" by (intro divide_left_mono) simp_all
    then have "a \<le> 1 / 2" by (simp only: a_def)
    moreover have "t \<le> 1 / 2" by (simp add: t_def)
    ultimately show ?thesis using derr by linarith
  qed
  have "\<bar>epsilon - d\<bar> \<le> 1" using eps d0 d1 by linarith
  then have "\<bar>fl (epsilon - d) - (epsilon - d)\<bar> \<le> t" unfolding t_def by (rule fl_error_unit)
  then have up: "fl (epsilon - d) \<le> epsilon - a + (t + t)" using derr by linarith
  have "epsilon_decay (int N) epsilon = Inr (max (fl (epsilon - d)) 0)"
    using N(1) by (simp add: epsilon_decay_def py_truediv_def fsub_def d_def)
  moreover have "max (fl (epsilon - d)) 0 \<le> max 0 (epsilon - a + (t + t))"
    using up by (simp add: max_def)
  moreover have "0 \<le> max (fl (epsilon - d)) 0" by simp
  ultimately show ?thesis unfolding t2 a_def by blast
qed

lemma decay_bound_range:
  assumes "1 \<le> N" "N \<le> 2 ^ 53" "k \<le> N"
  shows "0 \<le> decay_bound N k \<and> decay_bound N k \<le> 1"
proof -
  have "(of_nat N :: rat) \<le> of_nat (2 ^ 53)" using assms(2) by (rule of_nat_mono)
  then have "(of_nat N :: rat) \<le> 2 ^ 53" by simp
  then have "(of_nat k :: rat) / 2 ^ 53 \<le> of_nat k / of_nat N"
    using assms(1) by (intro divide_left_mono) simp_all
  moreover have "(of_nat k :: rat) / of_nat N \<le> 1"
    using assms(1,3) by (simp add: divide_le_eq_1)
  moreover have "(0::rat) \<le> of_nat k / 2 ^ 53" by simp
  ultimately show ?thesis unfolding decay_bound_def by linarith
qed

lemma decay_bound_Suc:
  "decay_bound N (Suc k) = decay_bound N k - 1 / of_nat N + 1 / 2 ^ 53"
proof -
  have "(of_nat (Suc k) :: rat) / of_nat N = of_nat k / of_nat N + 1 / of_nat N"
    and "(of_nat (Suc k) :: rat) / 2 ^ 53 = of_nat k / 2 ^ 53 + 1 / 2 ^ 53"
    by (simp_all add: add_divide_distrib)
  then show ?thesis unfolding decay_bound_def by linarith
qed

lemma decay_times_bounded:
  assumes N: "1 \<le> N" "N \<le> 2 ^ 53"
  shows "j + k \<le> N \<Longrightarrow> 0 \<le> epsilon \<Longrightarrow> epsilon \<le> decay_bound N j \<Longrightarrow>
         \<exists>e. decay_times k (int N) epsilon = Inr e \<and> 0 \<le> e \<and> e \<le> decay_bound N (j + k)"
proof (induction k arbitrary: j epsilon)
  case 0
  then show ?case by simp
next
  case (Suc k)
  have "j \<le> N" using Suc.prems(1) by simp
  from decay_bound_range [OF N this] Suc.prems(3) have e1: "epsilon \<le> 1" by simp
  from epsilon_decay_step [OF N Suc.prems(2) e1] obtain e' where
    e': "epsilon_decay (int N) epsilon = Inr e'" "0 \<le> e'"
        "e' \<le> max 0 (epsilon - 1 / of_nat N + 1 / 2 ^ 53)"
    by blast
  have "Suc j \<le> N" using Suc.prems(1) by simp
  from decay_bound_range [OF N this] have "0 \<le> decay_bound N (Suc j)" by simp
  moreover have "epsilon - 1 / of_nat N + 1 / 2 ^ 53 \<le> decay_bound N (Suc j)"
    using Suc.prems(3) by (simp add: decay_bound_Suc)
  ultimately have "e' \<le> decay_bound N (Suc j)" using e'(3) by simp
  moreover have "Suc j + k \<le> N" using Suc.prems(1) by simp
  ultimately obtain e where "decay_times k (int N) e' = Inr e" "0 \<le> e"
      "e \<le> decay_bound N (Suc j + k)"
    using Suc.IH [of "Suc j" e'] e'(2) by blast
  then show ?case using e'(1) by simp
qed

text \<open>
  Claim C5, as amended. For \<open>1 \<le> N \<le> 2\<^sup>5\<^sup>3\<close> episodes and a start at \<open>\<epsilon> = 1\<close>, the decay
  never fails and never makes \<open>\<epsilon>\<close> negative; after \<open>k \<le> N\<close> applications \<open>\<epsilon>\<close> is at most
  \<open>1 - k/N + k/2\<^sup>5\<^sup>3\<close>, so after the \<open>N\<close>-th it lies between \<open>0\<close> and \<open>N/2\<^sup>5\<^sup>3\<close>. In exact
  arithmetic the schedule ends at \<open>0\<close>; in the binary64 arithmetic of the code a positive
  rounding residue can remain.
\<close>

theorem C5_epsilon_decay_bounds:
  assumes "1 \<le> N" and "N \<le> 2 ^ 53" and "k \<le> N"
  shows "(\<exists>e. decay_times k (int N) 1 = Inr e \<and> 0 \<le> e \<and> e \<le> decay_bound N k)
         \<and> (\<exists>e. decay_times N (int N) 1 = Inr e \<and> 0 \<le> e \<and> e \<le> of_nat N / 2 ^ 53)
         \<and> (decay_exact (int N) ^^ N) 1 = 0"
proof -
  have b0: "(1::rat) \<le> decay_bound N 0" by (simp add: decay_bound_def)
  have 1: "\<exists>e. decay_times k (int N) 1 = Inr e \<and> 0 \<le> e \<and> e \<le> decay_bound N k"
    using decay_times_bounded [OF assms(1,2), of 0 k 1] assms(3) b0 by simp
  have "(of_nat N :: rat) / of_nat N = 1" using assms(1) by simp
  then have eq: "decay_bound N N = of_nat N / 2 ^ 53"
    unfolding decay_bound_def by linarith
  have "\<exists>e. decay_times N (int N) 1 = Inr e \<and> 0 \<le> e \<and> e \<le> decay_bound N (0 + N)"
    by (rule decay_times_bounded [OF assms(1,2)]) (use b0 in simp_all)
  then have 2: "\<exists>e. decay_times N (int N) 1 = Inr e \<and> 0 \<le> e \<and> e \<le> of_nat N / 2 ^ 53"
    unfolding add_0 eq .
  have 3: "(decay_exact (int N) ^^ N) 1 = 0"
    using decay_exact_linear [of N N] assms(1) by simp
  from 1 2 3 show ?thesis by blast
qed

lemma fl_third: "fl (1 / 3) = 6004799503160661 / 18014398509481984"
  by code_simp

lemma fl_decay3_1:
  "fl (12009599006321323 / 18014398509481984) = 3002399751580331 / 4503599627370496"
  by code_simp

lemma fl_decay3_2:
  "fl (6004799503160663 / 18014398509481984) = 6004799503160663 / 18014398509481984"
  by code_simp

lemma fl_decay3_3: "fl (1 / 9007199254740992) = 1 / 9007199254740992"
  by code_simp

lemma decay3_1: "epsilon_decay 3 1 = Inr (3002399751580331 / 4503599627370496)"
  by (simp add: epsilon_decay_def py_truediv_def fsub_def fl_third fl_decay3_1)

lemma decay3_2:
  "epsilon_decay 3 (3002399751580331 / 4503599627370496)
   = Inr (6004799503160663 / 18014398509481984)"
  by (simp add: epsilon_decay_def py_truediv_def fsub_def fl_third fl_decay3_2)

lemma decay3_3:
  "epsilon_decay 3 (6004799503160663 / 18014398509481984) = Inr (1 / 9007199254740992)"
  by (simp add: epsilon_decay_def py_truediv_def fsub_def fl_third fl_decay3_3)

lemma decay_times_3: "decay_times 3 3 1 = Inr (1 / 9007199254740992)"
  by (simp add: numeral_3_eq_3 decay3_1 decay3_2 decay3_3)

text \<open>
  Claim C5 as stated fails: with \<open>N = 3\<close> episodes the three applications leave
  \<open>\<epsilon> = 2\<^sup>-\<^sup>5\<^sup>3\<close>, not \<open>0\<close> (Python prints \<open>1.1102230246251565e-16\<close>).
\<close>

theorem C5_decay_residue_counterexample:
  "decay_times 3 3 1 = Inr (1 / 9007199254740992) \<and> decay_times 3 3 1 \<noteq> Inr 0"
  by (simp add: decay_times_3)

theorem C5_epsilon_decay_bounds_witness:
  "(1::nat) \<le> 3 \<and> (3::nat) \<le> 2 ^ 53
   \<and> decay_times 3 (int 3) 1 = Inr (1 / 9007199254740992)
   \<and> (0::rat) \<le> 1 / 9007199254740992 \<and> (1::rat) / 9007199254740992 \<le> of_nat 3 / 2 ^ 53
   \<and> (decay_exact (int 3) ^^ 3) 1 = 0"
proof -
  have h: "(1::nat) \<le> 3" "(3::nat) \<le> 2 ^ 53" "(3::nat) \<le> 3" by simp_all
  show ?thesis
    using h C5_epsilon_decay_bounds [OF h] decay_times_3 by simp
qed

lemma episodes_loop_epsilon:
  "episodes_loop R fuel is_training episodes entropy draws todo (epsilon, g, rs)
     = Some (Inr (epsilon', g', rs'))
   \<Longrightarrow> decay_times (length todo) episodes epsilon = Inr epsilon'"
proof (induction todo arbitrary: epsilon g rs)
  case Nil
  then show ?case by simp
next
  case (Cons i rest)
  from Cons.prems obtain e1 g1 rs1 where
    d: "epsilon_decay episodes epsilon = Inr e1"
    and r: "episodes_loop R fuel is_training episodes entropy draws rest (e1, g1, rs1)
            = Some (Inr (epsilon', g', rs'))"
    by (auto split: sum.splits option.splits prod.splits)
  from Cons.IH [OF r] d show ?case by simp
qed

lemma run_q_epsilon:
  assumes "run_q R fuel entropy0 entropy draws g loaded episodes is_training render
           = Some (Inr res)"
  shows "decay_times (nat episodes) episodes 1 = Inr (final_epsilon res)
         \<and> plotted res = sum_steps (final_steps res)"
proof -
  from assms obtain st epsilon g' rs where
    l: "episodes_loop R fuel is_training episodes entropy draws [0..<nat episodes] (1, st)
        = Some (Inr (epsilon, g', rs))"
    and res: "res = \<lparr>final_q = rs_q rs, final_epsilon = epsilon,
                     final_steps = rs_steps_per_episode rs,
                     plotted = sum_steps (rs_steps_per_episode rs),
                     saved = (if is_training then Some (rs_q rs) else None)\<rparr>"
    by (auto simp: run_q_def Let_def split: if_splits sum.splits option.splits prod.splits
        simp del: episodes_loop.simps)
  obtain g0 rs0 where st: "st = (g0, rs0)" by (cases st)
  from episodes_loop_epsilon [OF l [unfolded st]] res show ?thesis by simp
qed

section \<open>The moving average\<close>

lemma steps_window_eq:
  "steps_window xs t = drop (t - 100) (take (Suc t) xs)"
proof -
  have "nat (max 0 (int t - 100)) = t - 100" by simp
  moreover have "nat (int t + 1) = Suc t" by simp
  ultimately show ?thesis by (simp only: steps_window_def py_slice_def)
qed

text \<open>
  Claim C8. The value reported at index \<open>t\<close> averages the slice
  \<open>steps_per_episode[max(0, t-100):(t+1)]\<close>, which holds \<open>min(101, t + 1)\<close> entries: it is the
  trailing window of size 101, not 100. From \<open>t = 100\<close> on the code's window has 101
  entries and begins at position \<open>t - 100\<close>, one entry before the window of the claim.
\<close>

theorem C8_window_has_101_entries:
  assumes "t < length xs"
  shows "length (steps_window xs t) = min 101 (t + 1)
         \<and> steps_window xs t = trailing_window 101 xs t
         \<and> (100 \<le> t \<longrightarrow> length (steps_window xs t) = 101
                         \<and> length (trailing_window 100 xs t) = 100
                         \<and> hd (steps_window xs t) = xs ! (t - 100))"
proof -
  have "length (take (Suc t) xs) = Suc t" using assms by simp
  then have "length (steps_window xs t) = Suc t - (t - 100)"
    by (simp only: steps_window_eq length_drop)
  then have len: "length (steps_window xs t) = min 101 (t + 1)" by arith
  have "t + 1 - min 101 (t + 1) = t - 100" by arith
  then have eq: "steps_window xs t = trailing_window 101 xs t"
    by (simp add: steps_window_eq trailing_window_def)
  have "hd (steps_window xs t) = xs ! (t - 100)" if "100 \<le> t"
  proof -
    have "t - 100 < length (take (Suc t) xs)" using assms by simp
    then have "hd (drop (t - 100) (take (Suc t) xs)) = take (Suc t) xs ! (t - 100)"
      by (rule hd_drop_conv_nth)
    then show ?thesis by (simp add: steps_window_eq)
  qed
  moreover have "length (trailing_window 100 xs t) = 100" if "100 \<le> t"
  proof -
    have "length (take (t + 1) xs) = t + 1" using assms by simp
    then have "length (trailing_window 100 xs t) = t + 1 - (t + 1 - min 100 (t + 1))"
      by (simp only: trailing_window_def length_drop)
    with that show ?thesis by arith
  qed
  ultimately show ?thesis using len eq by simp
qed

lemma foldl_fadd_twos:
  assumes "0 \<le> a" and "a + 2 * int n < 2 ^ 53"
  shows "foldl fadd (of_int a) (replicate n 2) = of_int (a + 2 * int n)"
  using assms
proof (induction n arbitrary: a)
  case 0
  then show ?case by simp
next
  case (Suc n)
  have "fadd (of_int a) 2 = fl (of_int (a + 2))" by (simp add: fadd_def)
  also have "\<dots> = of_int (a + 2)" using Suc.prems by (intro fl_int_exact) simp
  finally have "fadd (of_int a) 2 = of_int (a + 2)" .
  moreover have "foldl fadd (of_int (a + 2)) (replicate n 2) = of_int (a + 2 + 2 * int n)"
    using Suc.prems by (intro Suc.IH) simp_all
  ultimately show ?case by (simp add: algebra_simps)
qed

lemma mean_steps_101: "np_mean steps_101 = Some 4"
proof -
  have "foldl fadd (of_int 204) (replicate 100 2) = of_int (204 + 2 * int 100)"
    by (rule foldl_fadd_twos) simp_all
  then have "foldl fadd 0 steps_101 = 404"
    by (simp add: steps_101_def fadd_def fl_small_ints)
  then show ?thesis by (simp add: np_mean_def steps_101_def fl_small_ints)
qed

lemma mean_last_100: "np_mean (replicate 100 2) = Some 2"
proof -
  have "foldl fadd (of_int 0) (replicate 100 2) = of_int (0 + 2 * int 100)"
    by (rule foldl_fadd_twos) simp_all
  then have "foldl fadd 0 (replicate 100 2) = 200" by simp
  then show ?thesis by (simp add: np_mean_def fl_small_ints)
qed

theorem C8_window_has_101_entries_witness:
  "100 < length steps_101
   \<and> length (steps_window steps_101 100) = 101
   \<and> hd (steps_window steps_101 100) = steps_101 ! 0
   \<and> np_mean (steps_window steps_101 100) = Some 4
   \<and> length (trailing_window 100 steps_101 100) = 100
   \<and> np_mean (trailing_window 100 steps_101 100) = Some 2"
proof -
  have h: "100 < length steps_101" by (simp add: steps_101_def)
  have w: "steps_window steps_101 100 = steps_101"
    by (simp add: steps_window_eq steps_101_def)
  have "trailing_window 100 steps_101 100 = drop (Suc 0) steps_101"
    by (simp add: trailing_window_def steps_101_def)
  then have tw: "trailing_window 100 steps_101 100 = replicate 100 2"
    by (simp add: steps_101_def)
  show ?thesis
    using h C8_window_has_101_entries [OF h] w tw mean_steps_101 mean_last_100 by simp
qed

section \<open>The evaluation run and the loaded table\<close>

lemma q_state_idx_cases:
  assumes "q_shape q = (n1, n2, n3, n4, n5)"
  shows "(in_axis n1 a \<and> in_axis n2 b \<and> in_axis n3 c \<and> in_axis n4 d
            \<and> (\<exists>ix. q_state_idx q (a, b, c, d) = Inr ix))
         \<or> (\<not> (in_axis n1 a \<and> in_axis n2 b \<and> in_axis n3 c \<and> in_axis n4 d)
            \<and> q_state_idx q (a, b, c, d) = Inl IndexError)"
proof -
  have c: "(\<exists>k. np_index n i = Inr k \<and> in_axis n i) \<or> (np_index n i = Inl IndexError \<and> \<not> in_axis n i)"
    for n i by (auto simp: np_index_def in_axis_def)
  from c [of n1 a] c [of n2 b] c [of n3 c] c [of n4 d] show ?thesis
    by (auto simp: q_state_idx_def assms)
qed

text \<open>
  Claim C9, as amended. When the run is not a training run the loaded table is used as
  it is; nothing compares its shape with the grid. The first use is the greedy lookup of
  a step: it raises \<open>IndexError\<close> exactly when a component of the current observation is
  not an index into the corresponding axis of the loaded table, \<open>ValueError\<close> exactly when
  the observation indexes into the table and the action axis is empty, and in every other
  case it yields an action below the length of the action axis; the environment rejects
  an action of 4 or more with \<open>ValueError\<close>.
\<close>

theorem C9_table_used_without_shape_check:
  assumes "q_shape q = (n1, n2, n3, n4, n5)"
  shows "((select_action False epsilon u sampled q (a, b, c, d) = Inl IndexError)
            = (\<not> (in_axis n1 a \<and> in_axis n2 b \<and> in_axis n3 c \<and> in_axis n4 d)))
         \<and> ((select_action False epsilon u sampled q (a, b, c, d) = Inl ValueError)
            = (in_axis n1 a \<and> in_axis n2 b \<and> in_axis n3 c \<and> in_axis n4 d \<and> n5 = 0))
         \<and> ((\<exists>k. select_action False epsilon u sampled q (a, b, c, d) = Inr (int k) \<and> k < n5)
            = (in_axis n1 a \<and> in_axis n2 b \<and> in_axis n3 c \<and> in_axis n4 d \<and> 0 < n5))
         \<and> (\<forall>k. 4 \<le> k \<longrightarrow> step E (int k) = Inl ValueError)"
proof -
  have big: "\<forall>k. 4 \<le> k \<longrightarrow> step E (int k) = Inl ValueError"
    by (simp add: step_def RobotAction_of_def)
  let ?ok = "in_axis n1 a \<and> in_axis n2 b \<and> in_axis n3 c \<and> in_axis n4 d"
  let ?sel = "select_action False epsilon u sampled q (a, b, c, d)"
  from q_state_idx_cases [OF assms, of a b c d]
  consider (bad) "\<not> ?ok" "q_state_idx q (a, b, c, d) = Inl IndexError"
    | (good) ix where "?ok" "q_state_idx q (a, b, c, d) = Inr ix"
    by blast
  then show ?thesis
  proof cases
    case bad
    then have "?sel = Inl IndexError"
      by (simp add: select_action_def explores_def q_row_def)
    with bad(1) big show ?thesis by auto
  next
    case good
    obtain a' b' c' d' where ix: "ix = (a', b', c', d')" by (cases ix) auto
    let ?row = "map (\<lambda>k. q_cells q (a', b', c', d', k)) [0..<n5]"
    have sel: "?sel = bind_err (np_argmax ?row) (\<lambda>k. Inr (int k))"
      using good(2) by (simp add: select_action_def explores_def q_row_def ix assms)
    show ?thesis
    proof (cases "n5 = 0")
      case True
      then have "?sel = Inl ValueError" using sel by simp
      with good(1) True big show ?thesis by auto
    next
      case False
      then have "?row \<noteq> []" by simp
      from np_argmax_first [OF this] obtain k where
        k: "np_argmax ?row = Inr k" "is_first_argmax ?row k" by blast
      then have "k < n5" by (simp add: is_first_argmax_def)
      moreover have "?sel = Inr (int k)" using sel k(1) by simp
      ultimately show ?thesis using good(1) False big by auto
    qed
  qed
qed

lemma upt_1: "[0..<1] = [0]"
  by simp

lemma row_right: "q_row q_5x6 (0, 0, 2, 1) = Inr [0, 0, 1, 0]"
  by (simp add: q_row_def q_state_idx_def np_index_def q_5x6_def upt_4)

lemma row_down_1: "q_row q_5x6 (0, 1, 2, 1) = Inr [0, 1, 0, 0]"
  by (simp add: q_row_def q_state_idx_def np_index_def q_5x6_def upt_4)

lemma row_down_2: "q_row q_5x6 (1, 1, 2, 1) = Inr [0, 1, 0, 0]"
  by (simp add: q_row_def q_state_idx_def np_index_def q_5x6_def upt_4)

lemma eval_step_1:
  "loop_body False 1 0 (0, 0) (eval_state (0, 0) None False 0 [0])
   = Inr (eval_state (0, 1) (Some RIGHT) False 1 [0])"
  by (simp add: loop_body_def select_action_def explores_def eval_state_def row_right step_def
      RobotAction_of_def perform_action_def observe_def env_4x5_def Let_def)

lemma eval_step_2:
  "loop_body False 1 0 (0, 0) (eval_state (0, 1) (Some RIGHT) False 1 [0])
   = Inr (eval_state (1, 1) (Some DOWN) False 2 [0])"
  by (simp add: loop_body_def select_action_def explores_def eval_state_def row_down_1 step_def
      RobotAction_of_def perform_action_def observe_def env_4x5_def Let_def)

lemma eval_step_3:
  "loop_body False 1 0 (0, 0) (eval_state (1, 1) (Some DOWN) False 2 [0])
   = Inr (eval_state (2, 1) (Some DOWN) True 0 [3])"
  by (simp add: loop_body_def select_action_def explores_def eval_state_def row_down_2 step_def
      RobotAction_of_def perform_action_def observe_def env_4x5_def Let_def fl_three)

lemma episode_loop_step:
  assumes "\<not> rs_terminated rs" and "loop_body is_training epsilon i (draws k) rs = Inr rs'"
  shows "episode_loop (Suc fuel) is_training epsilon i draws k rs
         = episode_loop fuel is_training epsilon i draws (Suc k) rs'"
  using assms by simp

lemma episode_loop_done:
  assumes "rs_terminated rs"
  shows "episode_loop fuel is_training epsilon i draws k rs = Some (Inr rs)"
  using assms by (cases fuel) simp_all

lemma eval_episode:
  "episode_loop 5 False 1 0 (\<lambda>k. (0, 0)) 0 (eval_state (0, 0) None False 0 [0])
   = Some (Inr (eval_state (2, 1) (Some DOWN) True 0 [3]))"
proof -
  have 5: "(5::nat) = Suc (Suc (Suc (Suc (Suc 0))))" by simp
  have t: "rs_terminated (eval_state p la term n steps) = term" for p la "term" n steps
    by (simp add: eval_state_def)
  have "episode_loop 5 False 1 0 (\<lambda>k. (0, 0)) 0 (eval_state (0, 0) None False 0 [0])
        = episode_loop (Suc (Suc (Suc (Suc 0)))) False 1 0 (\<lambda>k. (0, 0)) (Suc 0)
            (eval_state (0, 1) (Some RIGHT) False 1 [0])"
    unfolding 5 by (rule episode_loop_step [OF _ eval_step_1]) (simp add: t)
  also have "\<dots> = episode_loop (Suc (Suc (Suc 0))) False 1 0 (\<lambda>k. (0, 0)) (Suc (Suc 0))
            (eval_state (1, 1) (Some DOWN) False 2 [0])"
    by (rule episode_loop_step [OF _ eval_step_2]) (simp add: t)
  also have "\<dots> = episode_loop (Suc (Suc 0)) False 1 0 (\<lambda>k. (0, 0)) (Suc (Suc (Suc 0)))
            (eval_state (2, 1) (Some DOWN) True 0 [3])"
    by (rule episode_loop_step [OF _ eval_step_3]) (simp add: t)
  also have "\<dots> = Some (Inr (eval_state (2, 1) (Some DOWN) True 0 [3]))"
    by (rule episode_loop_done) (simp add: t)
  finally show ?thesis .
qed

lemma decay_one: "epsilon_decay 1 1 = Inr 0"
  by (simp add: epsilon_decay_def py_truediv_def fsub_def fl_one fl_zero)

lemma mean_three: "np_mean [3] = Some 3"
  by (simp add: np_mean_def fadd_def fl_three)

lemma make_example:
  "gym_make counter_rng None 7 0
   = Inr (env_4x5\<lparr>warehouse_robot := grid_4x5\<lparr>robot_pos := (0, 0), target_pos := (2, 1)\<rparr>\<rparr>, 9)"
  by (simp add: gym_make_def WarehouseRobotEnv_init_def WarehouseRobot_init_def reset_def
      randint_def random_seed_def counter_rng_def env_4x5_def grid_4x5_def Let_def)

lemma reset_again:
  "env_reset counter_rng None 7
     (env_4x5\<lparr>warehouse_robot := grid_4x5\<lparr>robot_pos := (0, 0), target_pos := (2, 1)\<rparr>\<rparr>, 9)
   = Inr ((0, 0, 2, 1),
          env_4x5\<lparr>warehouse_robot := grid_4x5\<lparr>robot_pos := (0, 0), target_pos := (2, 1)\<rparr>\<rparr>, 9)"
  by (simp add: env_reset_def reset_def randint_def random_seed_def counter_rng_def
      env_4x5_def grid_4x5_def observe_def Let_def)

lemma eval_run:
  "run_q counter_rng 5 7 (\<lambda>i. 7) (\<lambda>i k. (0, 0)) 0 q_5x6 1 False False
   = Some (Inr \<lparr>final_q = q_5x6, final_epsilon = 0, final_steps = [3], plotted = [Some 3],
                saved = None\<rparr>)"
proof -
  let ?E = "env_4x5\<lparr>warehouse_robot := grid_4x5\<lparr>robot_pos := (0, 0), target_pos := (2, 1)\<rparr>\<rparr>"
  have init: "\<lparr>rs_env = ?E, rs_q = q_5x6, rs_state = (0, 0, 2, 1), rs_terminated = False,
                rs_step_count = 0, rs_steps_per_episode = [0]\<rparr>
              = eval_state (0, 0) None False 0 [0]"
    by (simp add: eval_state_def grid_4x5_def env_4x5_def)
  have loop: "episodes_loop counter_rng 5 False 1 (\<lambda>i. 7) (\<lambda>i k. (0, 0)) [0]
                (1, 9, \<lparr>rs_env = ?E, rs_q = q_5x6,
                         rs_state = observe (grid_4x5\<lparr>robot_pos := (0, 0), target_pos := (2, 1)\<rparr>),
                         rs_terminated = False, rs_step_count = 0,
                         rs_steps_per_episode = [0]\<rparr>)
              = Some (Inr (0, 9, eval_state (2, 1) (Some DOWN) True 0 [3]))"
    by (simp add: reset_again init eval_episode decay_one)
  have steps: "rs_steps_per_episode (eval_state (2, 1) (Some DOWN) True 0 [3]) = [3]"
    and q: "rs_q (eval_state (2, 1) (Some DOWN) True 0 [3]) = q_5x6"
    by (simp_all add: eval_state_def)
  have plot: "sum_steps [3] = [Some 3]"
    by (simp add: sum_steps_def steps_window_def py_slice_def mean_three)
  have dims: "env_grid_rows ?E = 4" "env_grid_cols ?E = 5" by (simp_all add: env_4x5_def)
  show ?thesis
    by (simp add: run_q_def make_example Let_def upt_1 loop steps q plot
        del: episodes_loop.simps)
qed

text \<open>
  Claim C9 as stated fails: \<open>gym.make\<close> builds the 4 by 5 grid, and an evaluation run with
  a loaded table of shape \<open>(5, 6, 5, 6, 4)\<close> is not aborted; its episode ends at the target
  after 3 steps and the run returns its results.
\<close>

theorem C9_mismatched_table_runs_counterexample:
  "gym_make counter_rng None 7 0
     = Inr (env_4x5\<lparr>warehouse_robot := grid_4x5\<lparr>robot_pos := (0, 0), target_pos := (2, 1)\<rparr>\<rparr>, 9)
   \<and> env_grid_rows env_4x5 = 4 \<and> env_grid_cols env_4x5 = 5
   \<and> q_shape q_5x6 = (5, 6, 5, 6, 4)
   \<and> q_shape q_5x6 \<noteq> (4, 5, 4, 5, 4)
   \<and> run_q counter_rng 5 7 (\<lambda>i. 7) (\<lambda>i k. (0, 0)) 0 q_5x6 1 False False
       = Some (Inr \<lparr>final_q = q_5x6, final_epsilon = 0, final_steps = [3],
                    plotted = [Some 3], saved = None\<rparr>)"
  by (simp add: eval_run make_example) (simp add: q_5x6_def env_4x5_def)

theorem C9_table_used_without_shape_check_witness:
  "q_shape q_5x6 = (5, 6, 5, 6, 4)
   \<and> select_action False 1 0 0 q_5x6 (0, 0, 2, 1) = Inr 2
   \<and> in_axis 5 0 \<and> in_axis 6 0 \<and> in_axis 5 2 \<and> in_axis 6 1
   \<and> select_action False 1 0 0 q_5x6 (0, 0, 2, 6) = Inl IndexError
   \<and> \<not> in_axis 6 6"
proof -
  have h: "q_shape q_5x6 = (5, 6, 5, 6, 4)" by (simp add: q_5x6_def)
  have s: "select_action False 1 0 0 q_5x6 (0, 0, 2, 1) = Inr 2"
    by (simp add: select_action_def explores_def row_right)
  have ax: "in_axis 5 0 \<and> in_axis 6 0 \<and> in_axis 5 2 \<and> in_axis 6 1 \<and> \<not> in_axis 6 6"
    by (simp add: in_axis_def)
  show ?thesis
    using h s ax C9_table_used_without_shape_check [OF h, of 1 0 0 0 0 2 6] by simp
qed

end
